theory Spec2Isabelle
  imports Main "HOL-Library.Word"
begin

section \<open>Data model of check.go\<close>

text \<open>
  Go strings and byte slices are sequences of bytes; both are modelled as \<open>string\<close>
  (a list of 8-bit characters). A nil byte slice and an empty one are the same list,
  as they are for \<open>bytes.Equal\<close>, \<open>copy\<close> and the \<open>%s\<close> verb.
\<close>

definition xattrSha256 :: string where
  "xattrSha256 = ''user.shatag.sha256''"

definition xattrTsSha256 :: string where
  "xattrTsSha256 = ''user.shatag.ts''"

definition zeroSha256 :: string where
  "zeroSha256 = ''0000000000000000000000000000000000000000000000000000000000000000''"

definition xattrMd5 :: string where
  "xattrMd5 = ''user.shatag.md5''"

definition xattrTsMd5 :: string where
  "xattrTsMd5 = ''user.shatag.tsmd5''"

definition zeroMd5 :: string where
  "zeroMd5 = ''00000000000000000000000000000000''"

text \<open>\<open>type fileTimestamp struct { s uint64; ns uint32 }\<close>\<close>

record fileTimestamp =
  s :: "64 word"
  ns :: "32 word"

definition zeroFileTimeStamp :: fileTimestamp where
  "zeroFileTimeStamp = \<lparr> s = 0, ns = 0 \<rparr>"

text \<open>
  \<open>type fileAttr struct { ts, tsMd5 fileTimestamp; sha256, md5 []byte }\<close>.
  The zero value of the struct, which a named result \<open>attr\<close> starts from, is
  \<open>zeroFileAttr\<close>.
\<close>

record fileAttr =
  ts :: fileTimestamp
  tsMd5 :: fileTimestamp
  sha256 :: string
  md5 :: string

definition zeroFileAttr :: fileAttr where
  "zeroFileAttr = \<lparr> ts = zeroFileTimeStamp, tsMd5 = zeroFileTimeStamp, sha256 = [], md5 = [] \<rparr>"

subsection \<open>Errors\<close>

text \<open>
  A Go \<open>error\<close> is either a bare \<open>syscall.Errno\<close> or a wrapper around one
  (\<open>*os.PathError\<close>, \<open>*xattr.Error\<close>) that names the failed operation. The test
  \<open>err == syscall.EINPROGRESS\<close> holds for the bare errno only.
\<close>

datatype errno = EINPROGRESS | ENODATA | EIO | EACCES | ENOENT | ENOTSUP

datatype error = Errno errno | Wrapped string errno

section \<open>Library functions the code calls\<close>

subsection \<open>\<open>fmt.Sprintf\<close> with \<open>%0wd\<close> and \<open>%x\<close>\<close>

definition digit_char :: "nat \<Rightarrow> char" where
  "digit_char d = char_of (48 + d)"

fun decimal :: "nat \<Rightarrow> string" where
  "decimal n = (if n < 10 then [digit_char n] else decimal (n div 10) @ [digit_char (n mod 10)])"

declare decimal.simps [simp del]

text \<open>\<open>%0wd\<close>: decimal digits, padded on the left with \<open>0\<close> to at least \<open>w\<close> characters.\<close>

definition sprintf_0d :: "nat \<Rightarrow> nat \<Rightarrow> string" where
  "sprintf_0d w n = replicate (w - length (decimal n)) CHR ''0'' @ decimal n"

definition hex_char :: "nat \<Rightarrow> char" where
  "hex_char d = (if d < 10 then char_of (48 + d) else char_of (87 + d))"

text \<open>\<open>%x\<close> on a byte slice: two lower-case hexadecimal digits for each byte.\<close>

definition sprintf_x :: "string \<Rightarrow> string" where
  "sprintf_x bs = concat (map (\<lambda>b. [hex_char (of_char b div 16), hex_char (of_char b mod 16)]) bs)"

subsection \<open>\<open>strings.SplitN(str, ".", 2)\<close>\<close>

text \<open>
  At most two parts, cut at the first \<open>.\<close>; a text without \<open>.\<close> (the empty text
  too) is returned as its only part.
\<close>

fun SplitN_dot2 :: "string \<Rightarrow> string list" where
  "SplitN_dot2 str =
     (if CHR ''.'' \<in> set str
      then [takeWhile (\<lambda>c. c \<noteq> CHR ''.'') str, tl (dropWhile (\<lambda>c. c \<noteq> CHR ''.'') str)]
      else [str])"

subsection \<open>\<open>strconv.ParseUint(str, 10, bitSize)\<close>\<close>

datatype NumError = ErrSyntax | ErrRange

definition maxUint64 :: nat where
  "maxUint64 = 2 ^ 64 - 1"

definition cutoff10 :: nat where
  "cutoff10 = maxUint64 div 10 + 1"

definition is_digit :: "char \<Rightarrow> bool" where
  "is_digit c \<longleftrightarrow> (48::nat) \<le> of_char c \<and> of_char c \<le> (57::nat)"

text \<open>
  The loop of \<open>ParseUint\<close> over the bytes of the text, in base 10, on \<open>uint64\<close>
  arithmetic (the products and sums wrap modulo \<open>2 ^ 64\<close>). A byte that is not a decimal
  digit ends the loop with value 0 and a syntax error; an overflow of \<open>maxVal\<close> ends it
  with value \<open>maxVal\<close> and a range error.
\<close>

fun ParseUint_loop :: "nat \<Rightarrow> nat \<Rightarrow> string \<Rightarrow> nat \<times> NumError option" where
  "ParseUint_loop maxVal n [] = (n, None)"
| "ParseUint_loop maxVal n (c # cs) =
     (if is_digit c then
        (let d = of_char c - 48 in
         if n \<ge> cutoff10 then (maxVal, Some ErrRange)
         else
           (let n10 = (n * 10) mod 2 ^ 64;
                n1 = (n10 + d) mod 2 ^ 64
            in if n1 < n10 \<or> n1 > maxVal then (maxVal, Some ErrRange)
               else ParseUint_loop maxVal n1 cs))
      else (0, Some ErrSyntax))"

definition ParseUint :: "string \<Rightarrow> nat \<Rightarrow> nat \<times> NumError option" where
  "ParseUint str bitSize =
     (if str = [] then (0, Some ErrSyntax)
      else ParseUint_loop (2 ^ bitSize - 1) 0 str)"

subsection \<open>The built-in \<open>copy(dst, src)\<close> on byte slices\<close>

text \<open>Copies \<open>min (len dst) (len src)\<close> bytes to the front of \<open>dst\<close>; the rest of \<open>dst\<close> stays.\<close>

definition copy_bytes :: "string \<Rightarrow> string \<Rightarrow> string" where
  "copy_bytes dst src = take (length dst) src @ drop (length src) dst"

section \<open>The open file and its system calls\<close>

text \<open>
  What \<open>f.Stat()\<close> reports of the modification time: \<open>ModTime().Unix()\<close> is an
  \<open>int64\<close>, \<open>ModTime().Nanosecond()\<close> an \<open>int\<close>.
\<close>

record fileInfo =
  ModTime_Unix :: int
  ModTime_Nanosecond :: int

datatype syscall = Stat | Copy | FGet string | FSet string string | FRemove string

text \<open>
  An open \<open>*os.File\<close>: its extended attributes, the failures the environment injects
  into reads, writes and removals of an attribute, the result of each successive
  \<open>Stat\<close>, the result of streaming the content, and the log of the calls made so far.
\<close>

record os_File =
  xattrs :: "string \<Rightarrow> string option"
  fget_fault :: "string \<Rightarrow> error option"
  fset_fault :: "string \<Rightarrow> error option"
  fremove_fault :: "string \<Rightarrow> error option"
  stat_seq :: "nat \<Rightarrow> error + fileInfo"
  stat_calls :: nat
  copy_result :: "error + string"
  oplog :: "syscall list"

definition xattr_FGet :: "os_File \<Rightarrow> string \<Rightarrow> (error + string) \<times> os_File" where
  "xattr_FGet f name =
     (let f' = f\<lparr>oplog := oplog f @ [FGet name]\<rparr> in
      case fget_fault f name of
        Some e \<Rightarrow> (Inl e, f')
      | None \<Rightarrow>
          (case xattrs f name of
             None \<Rightarrow> (Inl (Wrapped ''xattr.fget'' ENODATA), f')
           | Some val \<Rightarrow> (Inr val, f')))"

definition xattr_FSet :: "os_File \<Rightarrow> string \<Rightarrow> string \<Rightarrow> error option \<times> os_File" where
  "xattr_FSet f name val =
     (let f' = f\<lparr>oplog := oplog f @ [FSet name val]\<rparr> in
      case fset_fault f name of
        Some e \<Rightarrow> (Some e, f')
      | None \<Rightarrow> (None, f'\<lparr>xattrs := (xattrs f)(name \<mapsto> val)\<rparr>))"

definition file_Stat :: "os_File \<Rightarrow> (error + fileInfo) \<times> os_File" where
  "file_Stat f =
     (stat_seq f (stat_calls f), f\<lparr>stat_calls := Suc (stat_calls f), oplog := oplog f @ [Stat]\<rparr>)"

definition io_Copy :: "os_File \<Rightarrow> (error + string) \<times> os_File" where
  "io_Copy f = (copy_result f, f\<lparr>oplog := oplog f @ [Copy]\<rparr>)"

section \<open>Reading the stored attributes\<close>

definition prettyPrint_ts :: "fileTimestamp \<Rightarrow> string" where
  "prettyPrint_ts t = sprintf_0d 10 (unat (s t)) @ ''.'' @ sprintf_0d 9 (unat (ns t))"

definition prettyPrint :: "fileAttr \<Rightarrow> string" where
  "prettyPrint a =
     sha256 a @ '' '' @ prettyPrint_ts (ts a) @ [CHR 0x0A] @ ''md5:'' @ md5 a @ '' '' @ prettyPrint_ts (tsMd5 a)"

text \<open>
  Lines 79 to 84 (and 97 to 102): the value of the timestamp attribute is cut at the
  first \<open>.\<close>; both \<open>ParseUint\<close> errors are dropped; without a second part \<open>ns\<close> keeps
  the value it had.
\<close>

definition parse_ts :: "fileTimestamp \<Rightarrow> string \<Rightarrow> fileTimestamp" where
  "parse_ts t0 val =
     (let parts = SplitN_dot2 val;
          t1 = t0\<lparr>s := of_nat (fst (ParseUint (parts ! 0) 64))\<rparr>
      in if length parts > 1
         then t1\<lparr>ns := of_nat (fst (ParseUint (parts ! 1) 32))\<rparr>
         else t1)"

definition getStoredAttrSha256 :: "os_File \<Rightarrow> (fileAttr \<times> error option) \<times> os_File" where
  "getStoredAttrSha256 f =
     (let attr = zeroFileAttr\<lparr>sha256 := zeroSha256\<rparr>;
          (r1, f1) = xattr_FGet f xattrSha256;
          attr = (case r1 of Inr val \<Rightarrow> attr\<lparr>sha256 := copy_bytes (sha256 attr) val\<rparr> | Inl _ \<Rightarrow> attr);
          (r2, f2) = xattr_FGet f1 xattrTsSha256;
          attr = (case r2 of Inr val \<Rightarrow> attr\<lparr>ts := parse_ts (ts attr) val\<rparr> | Inl _ \<Rightarrow> attr)
      in ((attr, None), f2))"

definition getStoredAttrMd5 :: "os_File \<Rightarrow> (fileAttr \<times> error option) \<times> os_File" where
  "getStoredAttrMd5 f =
     (let attr = zeroFileAttr\<lparr>md5 := zeroMd5\<rparr>;
          (r1, f1) = xattr_FGet f xattrMd5;
          attr = (case r1 of Inr val \<Rightarrow> attr\<lparr>md5 := copy_bytes (md5 attr) val\<rparr> | Inl _ \<Rightarrow> attr);
          (r2, f2) = xattr_FGet f1 xattrTsMd5;
          attr = (case r2 of Inr val \<Rightarrow> attr\<lparr>tsMd5 := parse_ts (tsMd5 attr) val\<rparr> | Inl _ \<Rightarrow> attr)
      in ((attr, None), f2))"

definition getStoredAttr :: "bool \<Rightarrow> os_File \<Rightarrow> (fileAttr \<times> error option) \<times> os_File" where
  "getStoredAttr bMd5 f = (if bMd5 then getStoredAttrMd5 f else getStoredAttrSha256 f)"

section \<open>Computing the actual attributes\<close>

text \<open>
  The digest functions of \<open>crypto/md5\<close> and \<open>crypto/sha256\<close>, from the bytes
  streamed into the hash to the bytes \<open>h.Sum(nil)\<close> returns, are parameters.
\<close>

record hashlib =
  md5_Sum :: "string \<Rightarrow> string"
  sha256_Sum :: "string \<Rightarrow> string"

definition getMtime :: "os_File \<Rightarrow> (fileTimestamp \<times> error option) \<times> os_File" where
  "getMtime f =
     (case file_Stat f of
        (Inl err, f') \<Rightarrow> ((zeroFileTimeStamp, Some err), f')
      | (Inr fi, f') \<Rightarrow>
          ((\<lparr> s = word_of_int (ModTime_Unix fi), ns = word_of_int (ModTime_Nanosecond fi) \<rparr>, None), f'))"

definition getActualAttrMd5 :: "hashlib \<Rightarrow> os_File \<Rightarrow> (fileAttr \<times> error option) \<times> os_File" where
  "getActualAttrMd5 H f =
     (let attr = zeroFileAttr\<lparr>md5 := zeroMd5\<rparr>;
          ((t1, err1), f1) = getMtime f;
          attr = attr\<lparr>tsMd5 := t1\<rparr>
      in case err1 of
           Some e \<Rightarrow> ((attr, Some e), f1)
         | None \<Rightarrow>
             (case io_Copy f1 of
                (Inl e, f2) \<Rightarrow> ((attr, Some e), f2)
              | (Inr content, f2) \<Rightarrow>
                  (let ((ts2, err2), f3) = getMtime f2
                   in case err2 of
                        Some e \<Rightarrow> ((attr, Some e), f3)
                      | None \<Rightarrow>
                          if tsMd5 attr \<noteq> ts2 then ((attr, Some (Errno EINPROGRESS)), f3)
                          else ((attr\<lparr>md5 := sprintf_x (md5_Sum H content)\<rparr>, None), f3))))"

definition getActualAttrSha256 :: "hashlib \<Rightarrow> os_File \<Rightarrow> (fileAttr \<times> error option) \<times> os_File" where
  "getActualAttrSha256 H f =
     (let attr = zeroFileAttr\<lparr>sha256 := zeroSha256\<rparr>;
          ((t1, err1), f1) = getMtime f;
          attr = attr\<lparr>ts := t1\<rparr>
      in case err1 of
           Some e \<Rightarrow> ((attr, Some e), f1)
         | None \<Rightarrow>
             (case io_Copy f1 of
                (Inl e, f2) \<Rightarrow> ((attr, Some e), f2)
              | (Inr content, f2) \<Rightarrow>
                  (let ((ts2, err2), f3) = getMtime f2
                   in case err2 of
                        Some e \<Rightarrow> ((attr, Some e), f3)
                      | None \<Rightarrow>
                          if ts attr \<noteq> ts2 then ((attr, Some (Errno EINPROGRESS)), f3)
                          else ((attr\<lparr>sha256 := sprintf_x (sha256_Sum H content)\<rparr>, None), f3))))"

definition getActualAttr :: "hashlib \<Rightarrow> bool \<Rightarrow> os_File \<Rightarrow> (fileAttr \<times> error option) \<times> os_File" where
  "getActualAttr H bMd5 f = (if bMd5 then getActualAttrMd5 H f else getActualAttrSha256 H f)"

section \<open>Comparisons\<close>

definition timesMatch :: "bool \<Rightarrow> fileAttr \<Rightarrow> fileAttr \<Rightarrow> bool" where
  "timesMatch bMd5 stored actual =
     (if bMd5 \<and> tsMd5 stored = tsMd5 actual then True
      else if \<not> bMd5 \<and> ts stored = ts actual then True
      else False)"

definition timesMatchZero :: "bool \<Rightarrow> fileAttr \<Rightarrow> bool" where
  "timesMatchZero bMd5 attr =
     (if bMd5 \<and> tsMd5 attr = zeroFileTimeStamp then True
      else if \<not> bMd5 \<and> ts attr = zeroFileTimeStamp then True
      else False)"

definition checksumsMatch :: "bool \<Rightarrow> fileAttr \<Rightarrow> fileAttr \<Rightarrow> bool" where
  "checksumsMatch bMd5 stored actual =
     (if bMd5 \<and> md5 stored = md5 actual then True
      else if \<not> bMd5 \<and> sha256 stored = sha256 actual then True
      else False)"

definition bytesMatchZero :: "bool \<Rightarrow> fileAttr \<Rightarrow> bool" where
  "bytesMatchZero bMd5 attr =
     (if bMd5 \<and> md5 attr = zeroMd5 then True
      else if \<not> bMd5 \<and> sha256 attr = zeroSha256 then True
      else False)"

section \<open>The checksum in the file name\<close>

text \<open>\<open>filepath.Base\<close> on a system whose separator is \<open>/\<close> and whose volume names are empty.\<close>

definition filepath_Base :: "string \<Rightarrow> string" where
  "filepath_Base path =
     (if path = [] then ''.''
      else
        (let stripped = rev (dropWhile (\<lambda>c. c = CHR ''/'') (rev path));
             elem = rev (takeWhile (\<lambda>c. c \<noteq> CHR ''/'') (rev stripped))
         in if elem = [] then ''/'' else elem))"

text \<open>The character class \<open>[0-9a-fA-F]\<close>.\<close>

definition is_hex :: "char \<Rightarrow> bool" where
  "is_hex c \<longleftrightarrow>
     (let k = (of_char c :: nat)
      in (48 \<le> k \<and> k \<le> 57) \<or> (97 \<le> k \<and> k \<le> 102) \<or> (65 \<le> k \<and> k \<le> 70))"

text \<open>
  \<open>FindString\<close> of the regular expression \<open>[0-9a-fA-F]{32}\<close>: the text of the leftmost
  match, that is the 32 bytes at the first position where 32 bytes of the class follow
  one another; the empty text when there is no match.
\<close>

fun FindString_hex32 :: "string \<Rightarrow> string" where
  "FindString_hex32 [] = []"
| "FindString_hex32 (c # cs) =
     (if 32 \<le> length (c # cs) \<and> list_all is_hex (take 32 (c # cs)) then take 32 (c # cs)
      else FindString_hex32 cs)"

text \<open>\<open>FindString\<close> of \<open>[0-9a-fA-F]\<close>: the first byte of the class, as a text.\<close>

fun FindString_hex1 :: "string \<Rightarrow> string" where
  "FindString_hex1 [] = []"
| "FindString_hex1 (c # cs) = (if is_hex c then [c] else FindString_hex1 cs)"

definition extractChecksumFromFilename :: "bool \<Rightarrow> string \<Rightarrow> int \<Rightarrow> string" where
  "extractChecksumFromFilename bMd5 fn len =
     (if len = 32 then FindString_hex32 fn else FindString_hex1 fn)"

definition checkFilename :: "bool \<Rightarrow> string \<Rightarrow> fileAttr \<Rightarrow> bool" where
  "checkFilename bMd5 pathFile actual =
     (let fn = filepath_Base pathFile;
          hash = (if bMd5 then extractChecksumFromFilename bMd5 fn 32
                  else extractChecksumFromFilename bMd5 fn 0)
      in if bMd5 then (if hash = md5 actual then True else False)
         else (if hash = sha256 actual then True else False))"

section \<open>Writing and removing attributes\<close>

text \<open>
  Modelled from the spec: \<open>storeAttr\<close> is called by \<open>checkFile\<close> and defined outside
  the source file. Section 4.2 of the specification: it writes the digest attribute and
  the timestamp attribute of the selected algorithm (two attribute writes; when the
  second fails the first has taken effect) and fails when a write fails. Section 6 gives
  the names of the attributes; the timestamp is written in its canonical text form.
\<close>

definition storeAttr :: "bool \<Rightarrow> os_File \<Rightarrow> fileAttr \<Rightarrow> error option \<times> os_File" where
  "storeAttr bMd5 f attr =
     (let (e1, f1) = xattr_FSet f (if bMd5 then xattrMd5 else xattrSha256)
                                  (if bMd5 then md5 attr else sha256 attr)
      in case e1 of
           Some e \<Rightarrow> (Some e, f1)
         | None \<Rightarrow> xattr_FSet f1 (if bMd5 then xattrTsMd5 else xattrTsSha256)
                                 (prettyPrint_ts (if bMd5 then tsMd5 attr else ts attr)))"

definition xattr_FRemove :: "os_File \<Rightarrow> string \<Rightarrow> error option \<times> os_File" where
  "xattr_FRemove f name =
     (let f' = f\<lparr>oplog := oplog f @ [FRemove name]\<rparr> in
      case fremove_fault f name of
        Some e \<Rightarrow> (Some e, f')
      | None \<Rightarrow>
          (case xattrs f name of
             None \<Rightarrow> (Some (Wrapped ''xattr.fremove'' ENODATA), f')
           | Some _ \<Rightarrow> (None, f'\<lparr>xattrs := (xattrs f)(name := None)\<rparr>)))"

text \<open>
  Modelled from the spec: \<open>removeAttr\<close> is called by \<open>checkFile\<close> and defined outside
  the source file. Section 4.2 of the specification: it deletes all four attributes and
  fails only when the removal of an attribute that exists fails.
\<close>

definition removeAttr_step :: "string \<Rightarrow> error option \<times> os_File \<Rightarrow> error option \<times> os_File" where
  "removeAttr_step name acc =
     (let (e, f') = xattr_FRemove (snd acc) name
      in (if fst acc = None \<and> xattrs (snd acc) name \<noteq> None then e else fst acc, f'))"

definition removeAttr :: "os_File \<Rightarrow> error option \<times> os_File" where
  "removeAttr f = fold removeAttr_step [xattrSha256, xattrTsSha256, xattrMd5, xattrTsMd5] (None, f)"

section \<open>The check of one file\<close>

text \<open>
  The global state \<open>checkFile\<close> works on: the counters \<open>stats\<close>, the command-line
  switches \<open>args\<close>, \<open>gBOnlyFilename\<close> and \<open>gBCheckFilename\<close>, what \<open>os.Open\<close>
  returns for a path, and the lines written to the standard output and the standard
  error, in order. The counters and the switches are declared outside the source file;
  the counters are taken as integers.
\<close>

record stats_t =
  total' :: int
  errorsOpening :: int
  errorsOther :: int
  ok :: int
  inprogress :: int
  corrupt :: int
  timechange :: int
  newfile :: int
  outdated :: int
  errorsWritingXattr :: int

record args_t =
  remove' :: bool
  q :: bool
  qq :: bool

text \<open>
  \<open>Stderr_Error err\<close> is the line \<open>"Error: %s\n"\<close> with the text of \<open>err\<close>,
  \<open>Stderr_corrupt fn\<close> the line \<open>"Error: corrupt file %q\n"\<close> with the quoted \<open>fn\<close>.
\<close>

datatype output_line = Stdout string | Stderr_Error error | Stderr_corrupt string

record world =
  stats :: stats_t
  args :: args_t
  gBOnlyFilename :: bool
  gBCheckFilename :: bool
  files :: "string \<Rightarrow> error + os_File"
  printed :: "output_line list"

definition newline :: string where
  "newline = [CHR 0x0A]"

definition Printf :: "string \<Rightarrow> world \<Rightarrow> world" where
  "Printf str w = w\<lparr>printed := printed w @ [Stdout str]\<rparr>"

definition Eprintf :: "output_line \<Rightarrow> world \<Rightarrow> world" where
  "Eprintf l w = w\<lparr>printed := printed w @ [l]\<rparr>"

definition upd_stats :: "(stats_t \<Rightarrow> stats_t) \<Rightarrow> world \<Rightarrow> world" where
  "upd_stats g w = w\<lparr>stats := g (stats w)\<rparr>"

text \<open>\<open>defer f.Close()\<close>: the file leaves the check in the state the calls left it in.\<close>

definition close_file :: "string \<Rightarrow> os_File \<Rightarrow> world \<Rightarrow> world" where
  "close_file fn f w = w\<lparr>files := (files w)(fn := Inr f)\<rparr>"

definition printComparison :: "fileAttr \<Rightarrow> fileAttr \<Rightarrow> world \<Rightarrow> world" where
  "printComparison stored actual w =
     Printf ('' stored: '' @ prettyPrint stored @ newline @ '' actual: '' @ prettyPrint actual @ newline) w"

text \<open>Lines 345 to 353: the end every branch that does not return comes to.\<close>

definition checkFile_store :: "bool \<Rightarrow> string \<Rightarrow> os_File \<Rightarrow> fileAttr \<Rightarrow> fileAttr \<Rightarrow> world \<Rightarrow> world" where
  "checkFile_store bMd5 fn f stored actual w =
     (let w1 = (if \<not> qq (args w) then printComparison stored actual w else w)
      in case storeAttr bMd5 f actual of
           (Some err, f') \<Rightarrow>
             close_file fn f'
               (upd_stats (\<lambda>st. st\<lparr>errorsWritingXattr := errorsWritingXattr st + 1\<rparr>)
                  (Eprintf (Stderr_Error err) w1))
         | (None, f') \<Rightarrow> close_file fn f' w1)"

text \<open>Lines 305 to 344: the comparison of the stored with the actual attributes.\<close>

definition checkFile_compare :: "bool \<Rightarrow> string \<Rightarrow> os_File \<Rightarrow> fileAttr \<Rightarrow> fileAttr \<Rightarrow> world \<Rightarrow> world" where
  "checkFile_compare bMd5 fn f stored actual w =
     (if timesMatch bMd5 stored actual then
        (if checksumsMatch bMd5 stored actual then
           (if gBCheckFilename w \<and> \<not> checkFilename bMd5 fn actual then
              close_file fn f
                (if \<not> q (args w)
                 then printComparison stored actual (Printf (''<filename not matched> '' @ fn @ newline) w)
                 else w)
            else
              close_file fn f
                (upd_stats (\<lambda>st. st\<lparr>ok := ok st + 1\<rparr>)
                   (if \<not> q (args w) then Printf (''<ok> '' @ fn @ newline) w else w)))
         else
           checkFile_store bMd5 fn f stored actual
             (upd_stats (\<lambda>st. st\<lparr>corrupt := corrupt st + 1\<rparr>)
                (Printf (''<corrupt> '' @ fn @ newline) (Eprintf (Stderr_corrupt fn) w))))
      else if checksumsMatch bMd5 stored actual then
        checkFile_store bMd5 fn f stored actual
          (upd_stats (\<lambda>st. st\<lparr>timechange := timechange st + 1\<rparr>)
             (if \<not> qq (args w) then Printf (''<timechange> '' @ fn @ newline) w else w))
      else if bytesMatchZero bMd5 stored \<and> timesMatchZero bMd5 stored then
        checkFile_store bMd5 fn f stored actual
          (upd_stats (\<lambda>st. st\<lparr>newfile := newfile st + 1\<rparr>)
             (if \<not> qq (args w) then Printf (''<new> '' @ fn @ newline) w else w))
      else
        checkFile_store bMd5 fn f stored actual
          (upd_stats (\<lambda>st. st\<lparr>outdated := outdated st + 1\<rparr>)
             (if \<not> qq (args w) then Printf (''<outdated> '' @ fn @ newline) w else w)))"

definition checkFile :: "hashlib \<Rightarrow> bool \<Rightarrow> string \<Rightarrow> world \<Rightarrow> world" where
  "checkFile H bMd5 fn w0 =
     (let w = upd_stats (\<lambda>st. st\<lparr>total' := total' st + 1\<rparr>) w0
      in case files w fn of
           Inl err \<Rightarrow>
             upd_stats (\<lambda>st. st\<lparr>errorsOpening := errorsOpening st + 1\<rparr>) (Eprintf (Stderr_Error err) w)
         | Inr f \<Rightarrow>
             if remove' (args w) then
               (case removeAttr f of
                  (Some err, f1) \<Rightarrow>
                    close_file fn f1
                      (upd_stats (\<lambda>st. st\<lparr>errorsOther := errorsOther st + 1\<rparr>)
                         (Eprintf (Stderr_Error err) w))
                | (None, f1) \<Rightarrow>
                    close_file fn f1
                      (upd_stats (\<lambda>st. st\<lparr>ok := ok st + 1\<rparr>)
                         (if \<not> q (args w) then Printf (''<removed xattr> '' @ fn @ newline) w else w)))
             else
               (case getStoredAttr bMd5 f of
                  ((stored, _), f1) \<Rightarrow>
                    if gBOnlyFilename w then
                      close_file fn f1
                        (if checkFilename bMd5 fn stored
                         then (if \<not> q (args w) then Printf (''<ok> '' @ fn @ newline) w else w)
                         else (if \<not> qq (args w)
                               then Printf (''<filename '' @ fn @ '' does not match md5 '' @ md5 stored
                                            @ ''> '' @ fn @ newline) w
                               else w))
                    else
                      (case getActualAttr H bMd5 f1 of
                         ((actual, Some err), f2) \<Rightarrow>
                           if err = Errno EINPROGRESS then
                             close_file fn f2
                               (upd_stats (\<lambda>st. st\<lparr>inprogress := inprogress st + 1\<rparr>)
                                  (if \<not> qq (args w)
                                   then Printf (''<concurrent modification> '' @ fn @ newline) w
                                   else w))
                           else
                             close_file fn f2
                               (upd_stats (\<lambda>st. st\<lparr>errorsOther := errorsOther st + 1\<rparr>)
                                  (Eprintf (Stderr_Error err) w))
                       | ((actual, None), f2) \<Rightarrow>
                           checkFile_compare bMd5 fn f2 stored actual w)))"

section \<open>Vocabulary of the statements\<close>

text \<open>
  What a read of the attribute \<open>name\<close> yields: the stored value, or nothing when the
  attribute is absent or the read fails.
\<close>

definition read_attr :: "os_File \<Rightarrow> string \<Rightarrow> string option" where
  "read_attr f name = (if fget_fault f name = None then xattrs f name else None)"

text \<open>The value of a text of decimal digits, read from the left with \<open>a\<close> read so far.\<close>

definition digit_step :: "nat \<Rightarrow> char \<Rightarrow> nat" where
  "digit_step a c = 10 * a + (of_char c - 48)"

definition digits_value :: "string \<Rightarrow> nat" where
  "digits_value ds = foldl digit_step 0 ds"

text \<open>
  The number a text field of the timestamp attribute stands for, as an unsigned number
  of \<open>bits\<close> bits: the maximum when the digits the field begins with exceed the
  range, else 0 for an empty field or a field with a byte that is not a digit, else the
  decimal value.
\<close>

definition field_value :: "nat \<Rightarrow> string \<Rightarrow> nat" where
  "field_value bits str =
     (if 2 ^ bits - 1 < digits_value (takeWhile is_digit str) then 2 ^ bits - 1
      else if str = [] \<or> \<not> list_all is_digit str then 0
      else digits_value str)"

text \<open>The fields and attribute names of the selected algorithm.\<close>

definition digest_of :: "bool \<Rightarrow> fileAttr \<Rightarrow> string" where
  "digest_of bMd5 a = (if bMd5 then md5 a else sha256 a)"

definition stamp_of :: "bool \<Rightarrow> fileAttr \<Rightarrow> fileTimestamp" where
  "stamp_of bMd5 a = (if bMd5 then tsMd5 a else ts a)"

definition zero_digest :: "bool \<Rightarrow> string" where
  "zero_digest bMd5 = (if bMd5 then zeroMd5 else zeroSha256)"

definition digest_attr :: "bool \<Rightarrow> string" where
  "digest_attr bMd5 = (if bMd5 then xattrMd5 else xattrSha256)"

definition stamp_attr :: "bool \<Rightarrow> string" where
  "stamp_attr bMd5 = (if bMd5 then xattrTsMd5 else xattrTsSha256)"

definition stored_of :: "bool \<Rightarrow> os_File \<Rightarrow> fileAttr" where
  "stored_of bMd5 f = fst (fst (getStoredAttr bMd5 f))"

text \<open>
  The maximal runs of hexadecimal digits of a text, from left to right: each run is as
  long as it can be, with no hexadecimal digit before it or after it.
\<close>

function hex_runs :: "string \<Rightarrow> string list" where
  "hex_runs [] = []"
| "hex_runs (c # cs) =
     (if is_hex c then takeWhile is_hex (c # cs) # hex_runs (dropWhile is_hex cs)
      else hex_runs cs)"
  by pat_completeness auto
termination
  by (relation "measure length") (auto simp add: less_Suc_eq_le length_dropWhile_le)

text \<open>The first maximal run of exactly \<open>n\<close> digits, the empty text when there is none.\<close>

definition first_run_of_exactly :: "nat \<Rightarrow> string \<Rightarrow> string" where
  "first_run_of_exactly n fn =
     (case filter (\<lambda>r. length r = n) (hex_runs fn) of [] \<Rightarrow> [] | r # _ \<Rightarrow> r)"

text \<open>
  The first \<open>n\<close> digits of the first maximal run of at least \<open>n\<close> digits, the empty
  text when there is none.
\<close>

definition head_of_first_long_run :: "nat \<Rightarrow> string \<Rightarrow> string" where
  "head_of_first_long_run n fn =
     (case filter (\<lambda>r. n \<le> length r) (hex_runs fn) of [] \<Rightarrow> [] | r # _ \<Rightarrow> take n r)"

subsection \<open>Verdicts\<close>

datatype verdict =
  Ok | Corrupt | TimeChanged | New | Outdated | FilenameNotMatched
  | ConcurrentModification | ReadError | OpenError

text \<open>The rows of the truth table over the fields of the selected algorithm.\<close>

definition row :: "bool \<Rightarrow> fileAttr \<Rightarrow> fileAttr \<Rightarrow> verdict \<Rightarrow> bool" where
  "row bMd5 stored actual v =
     (let same_time = (stamp_of bMd5 stored = stamp_of bMd5 actual);
          same_digest = (digest_of bMd5 stored = digest_of bMd5 actual);
          no_metadata = (digest_of bMd5 stored = zero_digest bMd5 \<and>
                         stamp_of bMd5 stored = zeroFileTimeStamp)
      in case v of
           Ok \<Rightarrow> same_time \<and> same_digest
         | Corrupt \<Rightarrow> same_time \<and> \<not> same_digest
         | TimeChanged \<Rightarrow> \<not> same_time \<and> same_digest
         | New \<Rightarrow> \<not> same_time \<and> \<not> same_digest \<and> no_metadata
         | Outdated \<Rightarrow> \<not> same_time \<and> \<not> same_digest \<and> \<not> no_metadata
         | _ \<Rightarrow> False)"

definition truth_table :: "bool \<Rightarrow> fileAttr \<Rightarrow> fileAttr \<Rightarrow> verdict" where
  "truth_table bMd5 stored actual =
     (if row bMd5 stored actual Ok then Ok
      else if row bMd5 stored actual Corrupt then Corrupt
      else if row bMd5 stored actual TimeChanged then TimeChanged
      else if row bMd5 stored actual New then New
      else Outdated)"

text \<open>The counter a verdict adds to; a file name that is not matched adds to none.\<close>

definition counted :: "verdict \<Rightarrow> stats_t \<Rightarrow> stats_t" where
  "counted v st =
     (case v of
        Ok \<Rightarrow> st\<lparr>ok := ok st + 1\<rparr>
      | Corrupt \<Rightarrow> st\<lparr>corrupt := corrupt st + 1\<rparr>
      | TimeChanged \<Rightarrow> st\<lparr>timechange := timechange st + 1\<rparr>
      | New \<Rightarrow> st\<lparr>newfile := newfile st + 1\<rparr>
      | Outdated \<Rightarrow> st\<lparr>outdated := outdated st + 1\<rparr>
      | FilenameNotMatched \<Rightarrow> st
      | ConcurrentModification \<Rightarrow> st\<lparr>inprogress := inprogress st + 1\<rparr>
      | ReadError \<Rightarrow> st\<lparr>errorsOther := errorsOther st + 1\<rparr>
      | OpenError \<Rightarrow> st\<lparr>errorsOpening := errorsOpening st + 1\<rparr>)"

text \<open>
  The check that led from \<open>w\<close> to \<open>w'\<close> counted one file, under the verdict
  \<open>v\<close>; the count of the failed attribute writes is left aside.
\<close>

definition classified :: "world \<Rightarrow> world \<Rightarrow> verdict \<Rightarrow> bool" where
  "classified w w' v \<longleftrightarrow>
     (stats w')\<lparr>errorsWritingXattr := errorsWritingXattr (stats w)\<rparr>
       = counted v ((stats w)\<lparr>total' := total' (stats w) + 1\<rparr>)"

definition persists :: "verdict \<Rightarrow> bool" where
  "persists v \<longleftrightarrow> v = Corrupt \<or> v = TimeChanged \<or> v = New \<or> v = Outdated"

subsection \<open>The calls a check makes on the file\<close>

definition is_write :: "syscall \<Rightarrow> bool" where
  "is_write c = (case c of FSet _ _ \<Rightarrow> True | FRemove _ \<Rightarrow> True | _ \<Rightarrow> False)"

definition is_FSet :: "syscall \<Rightarrow> bool" where
  "is_FSet c = (case c of FSet _ _ \<Rightarrow> True | _ \<Rightarrow> False)"

definition ops_during :: "world \<Rightarrow> world \<Rightarrow> string \<Rightarrow> syscall list" where
  "ops_during w w' fn =
     (case (files w fn, files w' fn) of
        (Inr f, Inr f') \<Rightarrow> drop (length (oplog f)) (oplog f')
      | _ \<Rightarrow> [])"

definition store_invoked :: "world \<Rightarrow> world \<Rightarrow> string \<Rightarrow> bool" where
  "store_invoked w w' fn = list_ex is_FSet (ops_during w w' fn)"

definition xattrs_at :: "world \<Rightarrow> string \<Rightarrow> string \<Rightarrow> string option" where
  "xattrs_at w fn = (case files w fn of Inr f \<Rightarrow> xattrs f | Inl _ \<Rightarrow> Map.empty)"

text \<open>The error of \<open>storeAttr\<close> on a file: that of the first write that fails.\<close>

definition store_error :: "bool \<Rightarrow> os_File \<Rightarrow> error option" where
  "store_error bMd5 f =
     (case fset_fault f (digest_attr bMd5) of
        Some e \<Rightarrow> Some e
      | None \<Rightarrow> fset_fault f (stamp_attr bMd5))"

text \<open>What the next \<open>Stat\<close> but \<open>k\<close> of the file reports.\<close>

definition mtime_at :: "os_File \<Rightarrow> nat \<Rightarrow> fileTimestamp \<times> error option" where
  "mtime_at f k = fst (getMtime (f\<lparr>stat_calls := stat_calls f + k\<rparr>))"

text \<open>
  The verdict by the order of precedence of the specification, with the check of the
  file name that follows the first row of the truth table.
\<close>

definition final_verdict :: "bool \<Rightarrow> string \<Rightarrow> bool \<Rightarrow> fileAttr \<Rightarrow> fileAttr \<Rightarrow> verdict" where
  "final_verdict bMd5 fn verifyFilename stored actual =
     (if truth_table bMd5 stored actual = Ok \<and> verifyFilename \<and> \<not> checkFilename bMd5 fn actual
      then FilenameNotMatched
      else truth_table bMd5 stored actual)"

definition spec_verdict :: "hashlib \<Rightarrow> bool \<Rightarrow> string \<Rightarrow> world \<Rightarrow> verdict" where
  "spec_verdict H bMd5 fn w =
     (case files w fn of
        Inl _ \<Rightarrow> OpenError
      | Inr f \<Rightarrow>
          (case fst (getActualAttr H bMd5 f) of
             (actual, Some e) \<Rightarrow> if e = Errno EINPROGRESS then ConcurrentModification else ReadError
           | (actual, None) \<Rightarrow> final_verdict bMd5 fn (gBCheckFilename w) (stored_of bMd5 f) actual))"

subsection \<open>Two runs that differ in the attributes of the other algorithm\<close>

text \<open>The names of the attributes of the algorithm that is not selected.\<close>

definition other_attrs :: "bool \<Rightarrow> string set" where
  "other_attrs bMd5 = (if bMd5 then {xattrSha256, xattrTsSha256} else {xattrMd5, xattrTsMd5})"

text \<open>Two files that are the same but for the values of the attributes named in \<open>N\<close>.\<close>

definition differ_only_in :: "string set \<Rightarrow> os_File \<Rightarrow> os_File \<Rightarrow> bool" where
  "differ_only_in N f g \<longleftrightarrow>
     (\<forall>n. n \<notin> N \<longrightarrow> xattrs f n = xattrs g n) \<and>
     fget_fault f = fget_fault g \<and> fset_fault f = fset_fault g \<and>
     fremove_fault f = fremove_fault g \<and> stat_seq f = stat_seq g \<and>
     stat_calls f = stat_calls g \<and> copy_result f = copy_result g \<and> oplog f = oplog g"

definition open_differ_only_in :: "string set \<Rightarrow> error + os_File \<Rightarrow> error + os_File \<Rightarrow> bool" where
  "open_differ_only_in N r1 r2 =
     (case (r1, r2) of
        (Inr f, Inr g) \<Rightarrow> differ_only_in N f g
      | (Inl e1, Inl e2) \<Rightarrow> e1 = e2
      | _ \<Rightarrow> False)"

text \<open>
  Two states of a run with the same counters, switches and printed lines, whose files
  are the same but for the values of the attributes named in \<open>N\<close>.
\<close>

definition same_run_but :: "string set \<Rightarrow> world \<Rightarrow> world \<Rightarrow> bool" where
  "same_run_but N w1 w2 \<longleftrightarrow>
     stats w1 = stats w2 \<and> args w1 = args w2 \<and>
     gBOnlyFilename w1 = gBOnlyFilename w2 \<and> gBCheckFilename w1 = gBCheckFilename w2 \<and>
     printed w1 = printed w2 \<and>
     (\<forall>p. open_differ_only_in N (files w1 p) (files w2 p))"

text \<open>The calls of a log that name an attribute name one of \<open>M\<close>.\<close>

definition touches_only :: "string set \<Rightarrow> syscall list \<Rightarrow> bool" where
  "touches_only M ops =
     list_all (\<lambda>c. case c of
                      FGet n \<Rightarrow> n \<in> M
                    | FSet n _ \<Rightarrow> n \<in> M
                    | FRemove n \<Rightarrow> n \<in> M
                    | _ \<Rightarrow> True) ops"

section \<open>Concrete inputs\<close>

text \<open>A file without attributes whose modification time does not move.\<close>

definition plain_file :: os_File where
  "plain_file =
     \<lparr> xattrs = Map.empty, fget_fault = (\<lambda>_. None), fset_fault = (\<lambda>_. None),
       fremove_fault = (\<lambda>_. None),
       stat_seq = (\<lambda>_. Inr \<lparr> ModTime_Unix = 1560177334, ModTime_Nanosecond = 20775051 \<rparr>),
       stat_calls = 0, copy_result = Inr ''hello'', oplog = [] \<rparr>"

text \<open>A SHA-256 attribute of three bytes and an MD5 attribute of forty.\<close>

definition odd_width_file :: os_File where
  "odd_width_file =
     plain_file\<lparr>xattrs := [xattrSha256 \<mapsto> ''abc'',
                             xattrMd5 \<mapsto> ''0123456789abcdef0123456789abcdef01234567'']\<rparr>"

text \<open>The timestamps of both algorithms as the program writes them.\<close>

definition stamped_file :: os_File where
  "stamped_file =
     plain_file\<lparr>xattrs := [xattrTsSha256 \<mapsto> ''1560177334.020775051'',
                             xattrTsMd5 \<mapsto> ''0000000000.000000000'']\<rparr>"

text \<open>A timestamp attribute whose two numbers are beyond 64 and 32 bits.\<close>

definition overflow_file :: os_File where
  "overflow_file =
     plain_file\<lparr>xattrs := [xattrTsSha256 \<mapsto> ''99999999999999999999.5000000000'']\<rparr>"

text \<open>A timestamp attribute without nanoseconds and with a letter among the seconds.\<close>

definition malformed_file :: os_File where
  "malformed_file = plain_file\<lparr>xattrs := [xattrTsSha256 \<mapsto> ''15x''] \<rparr>"

text \<open>The digests of the content \<open>hello\<close>, which the files of the examples hold.\<close>

definition demo_hashlib :: hashlib where
  "demo_hashlib =
     \<lparr> md5_Sum = (\<lambda>content.
         if content = ''hello'' then
       [CHR 0x5D, CHR 0x41, CHR 0x40, CHR 0x2A, CHR 0xBC, CHR 0x4B, CHR 0x2A, CHR 0x76,
            CHR 0xB9, CHR 0x71, CHR 0x9D, CHR 0x91, CHR 0x10, CHR 0x17, CHR 0xC5, CHR 0x92]
         else replicate 16 (CHR 0x00)),
       sha256_Sum = (\<lambda>content.
         if content = ''hello'' then
       [CHR 0x2C, CHR 0xF2, CHR 0x4D, CHR 0xBA, CHR 0x5F, CHR 0xB0, CHR 0xA3, CHR 0x0E,
            CHR 0x26, CHR 0xE8, CHR 0x3B, CHR 0x2A, CHR 0xC5, CHR 0xB9, CHR 0xE2, CHR 0x9E,
            CHR 0x1B, CHR 0x16, CHR 0x1E, CHR 0x5C, CHR 0x1F, CHR 0xA7, CHR 0x42, CHR 0x5E,
            CHR 0x73, CHR 0x04, CHR 0x33, CHR 0x62, CHR 0x93, CHR 0x8B, CHR 0x98, CHR 0x24]
         else replicate 32 (CHR 0x00)) \<rparr>"

text \<open>A file with the MD5 attributes of its content and modification time.\<close>

definition tagged_file :: os_File where
  "tagged_file =
     plain_file\<lparr>xattrs := [xattrMd5 \<mapsto> ''5d41402abc4b2a76b9719d911017c592'',
                             xattrTsMd5 \<mapsto> ''1560177334.020775051'']\<rparr>"

text \<open>A file whose modification time moves while it is read.\<close>

definition torn_file :: os_File where
  "torn_file =
     plain_file\<lparr>stat_seq := (\<lambda>k.
        if k = 0 then Inr \<lparr> ModTime_Unix = 1560177334, ModTime_Nanosecond = 20775051 \<rparr>
        else Inr \<lparr> ModTime_Unix = 1560177335, ModTime_Nanosecond = 0 \<rparr>)\<rparr>"

text \<open>A file whose extended attributes cannot be written.\<close>

definition readonly_file :: os_File where
  "readonly_file = plain_file\<lparr>fset_fault := (\<lambda>_. Some (Wrapped ''xattr.fset'' EACCES))\<rparr>"

definition zero_stats :: stats_t where
  "zero_stats =
     \<lparr> total' = 0, errorsOpening = 0, errorsOther = 0, ok = 0, inprogress = 0, corrupt = 0,
       timechange = 0, newfile = 0, outdated = 0, errorsWritingXattr = 0 \<rparr>"

text \<open>A run with all switches off, in which one path can be opened.\<close>

definition world_of :: "string \<Rightarrow> os_File \<Rightarrow> world" where
  "world_of fn f =
     \<lparr> stats = zero_stats,
       args = \<lparr> remove' = False, q = False, qq = False \<rparr>,
       gBOnlyFilename = False, gBCheckFilename = False,
       files = (\<lambda>_. Inl (Wrapped ''open'' ENOENT))(fn := Inr f),
       printed = [] \<rparr>"

text \<open>The run that also verifies the file name, and the same run made quiet.\<close>

definition verifying_world :: world where
  "verifying_world = (world_of ''notes.txt'' tagged_file)\<lparr>gBCheckFilename := True\<rparr>"

definition quiet_verifying_world :: world where
  "quiet_verifying_world =
     verifying_world\<lparr>args := \<lparr> remove' = False, q = True, qq = False \<rparr>\<rparr>"

text \<open>The attributes computed for the files of the examples.\<close>

definition hello_md5 :: fileAttr where
  "hello_md5 =
     \<lparr> ts = zeroFileTimeStamp, tsMd5 = \<lparr> s = 1560177334, ns = 20775051 \<rparr>,
       sha256 = [], md5 = ''5d41402abc4b2a76b9719d911017c592'' \<rparr>"

definition hello_sha256 :: fileAttr where
  "hello_sha256 =
     \<lparr> ts = \<lparr> s = 1560177334, ns = 20775051 \<rparr>, tsMd5 = zeroFileTimeStamp,
       sha256 = ''2cf24dba5fb0a30e26e83b2ac5b9e29e1b161e5c1fa7425e73043362938b9824'', md5 = [] \<rparr>"

text \<open>A run that trusts the file name, on a file named by its MD5 digest.\<close>

definition filename_only_world :: world where
  "filename_only_world =
     (world_of ''IMG_5d41402abc4b2a76b9719d911017c592.jpg'' tagged_file)\<lparr>gBOnlyFilename := True\<rparr>"

text \<open>The tagged file with the SHA-256 attributes of another content as well.\<close>

definition doubly_tagged_file :: os_File where
  "doubly_tagged_file =
     tagged_file\<lparr>xattrs := (xattrs tagged_file)
        (xattrSha256 \<mapsto> ''e3b0c44298fc1c149afbf4c8996fb92427ae41e4649b934ca495991b7852b855'',
         xattrTsSha256 \<mapsto> ''1500000000.000000000'')\<rparr>"

section \<open>The stored attributes in closed form\<close>

lemma xattr_FGet_eq:
  "xattr_FGet f name =
     ((case read_attr f name of
         None \<Rightarrow> Inl (case fget_fault f name of Some e \<Rightarrow> e | None \<Rightarrow> Wrapped ''xattr.fget'' ENODATA)
       | Some v \<Rightarrow> Inr v),
      f\<lparr>oplog := oplog f @ [FGet name]\<rparr>)"
  by (simp add: xattr_FGet_def read_attr_def Let_def split: option.splits)

lemma read_attr_oplog [simp]: "read_attr (f\<lparr>oplog := l\<rparr>) name = read_attr f name"
  by (simp add: read_attr_def)

lemma getStoredAttrSha256_eq:
  "getStoredAttrSha256 f =
     ((\<lparr> ts = (case read_attr f xattrTsSha256 of
                  None \<Rightarrow> zeroFileTimeStamp | Some v \<Rightarrow> parse_ts zeroFileTimeStamp v),
         tsMd5 = zeroFileTimeStamp,
         sha256 = (case read_attr f xattrSha256 of
                     None \<Rightarrow> zeroSha256 | Some v \<Rightarrow> copy_bytes zeroSha256 v),
         md5 = [] \<rparr>, None),
      f\<lparr>oplog := oplog f @ [FGet xattrSha256, FGet xattrTsSha256]\<rparr>)"
  by (simp add: getStoredAttrSha256_def xattr_FGet_eq zeroFileAttr_def split: option.splits)

lemma getStoredAttrMd5_eq:
  "getStoredAttrMd5 f =
     ((\<lparr> ts = zeroFileTimeStamp,
         tsMd5 = (case read_attr f xattrTsMd5 of
                     None \<Rightarrow> zeroFileTimeStamp | Some v \<Rightarrow> parse_ts zeroFileTimeStamp v),
         sha256 = [],
         md5 = (case read_attr f xattrMd5 of
                  None \<Rightarrow> zeroMd5 | Some v \<Rightarrow> copy_bytes zeroMd5 v) \<rparr>, None),
      f\<lparr>oplog := oplog f @ [FGet xattrMd5, FGet xattrTsMd5]\<rparr>)"
  by (simp add: getStoredAttrMd5_def xattr_FGet_eq zeroFileAttr_def split: option.splits)

lemma zeroSha256_replicate: "zeroSha256 = replicate 64 CHR ''0''"
  by (simp add: zeroSha256_def eval_nat_numeral)

lemma zeroMd5_replicate: "zeroMd5 = replicate 32 CHR ''0''"
  by (simp add: zeroMd5_def eval_nat_numeral)

lemma copy_bytes_replicate:
  "copy_bytes (replicate n c) src = take n src @ replicate (n - length src) c"
  by (simp add: copy_bytes_def)

section \<open>Evaluation of the digit characters\<close>

lemma digit_char_eval:
  "digit_char 0 = CHR ''0''" "digit_char 1 = CHR ''1''" "digit_char 2 = CHR ''2''"
  "digit_char 3 = CHR ''3''" "digit_char 4 = CHR ''4''" "digit_char 5 = CHR ''5''"
  "digit_char 6 = CHR ''6''" "digit_char 7 = CHR ''7''" "digit_char 8 = CHR ''8''"
  "digit_char 9 = CHR ''9''" "digit_char (Suc 0) = CHR ''1''"
  by (rule of_char_eqI [where ?'a = nat], simp add: digit_char_def)+
lemma hex_char_eval:
  "hex_char 0 = CHR ''0''" "hex_char 1 = CHR ''1''" "hex_char 2 = CHR ''2''"
  "hex_char 3 = CHR ''3''" "hex_char 4 = CHR ''4''" "hex_char 5 = CHR ''5''"
  "hex_char 6 = CHR ''6''" "hex_char 7 = CHR ''7''" "hex_char 8 = CHR ''8''"
  "hex_char 9 = CHR ''9''" "hex_char 10 = CHR ''a''" "hex_char 11 = CHR ''b''"
  "hex_char 12 = CHR ''c''" "hex_char 13 = CHR ''d''" "hex_char 14 = CHR ''e''"
  "hex_char 15 = CHR ''f''" "hex_char (Suc 0) = CHR ''1''"
  by (rule of_char_eqI [where ?'a = nat], simp add: hex_char_def)+

section \<open>Decimal texts\<close>

lemma is_digit_digit_char: "d < 10 \<Longrightarrow> is_digit (digit_char d)"
  by (simp add: is_digit_def digit_char_def)

lemma digit_char_val: "d < 10 \<Longrightarrow> (of_char (digit_char d) :: nat) - 48 = d"
  by (simp add: digit_char_def)

lemma digit_step_digit_char: "d < 10 \<Longrightarrow> digit_step a (digit_char d) = 10 * a + d"
  by (simp add: digit_step_def digit_char_val)

lemma decimal_digits: "list_all is_digit (decimal n)"
proof (induction n rule: decimal.induct)
  case (1 n)
  show ?case
  proof (cases "n < 10")
    case True
    then show ?thesis by (subst decimal.simps) (simp add: is_digit_digit_char)
  next
    case False
    with 1 show ?thesis by (subst decimal.simps) (simp add: is_digit_digit_char)
  qed
qed

lemma decimal_nonempty: "decimal n \<noteq> []"
  by (subst decimal.simps) simp

lemma foldl_decimal: "foldl digit_step a (decimal n) = a * 10 ^ length (decimal n) + n"
proof (induction n arbitrary: a rule: decimal.induct)
  case (1 n)
  show ?case
  proof (cases "n < 10")
    case True
    then show ?thesis by (subst (1 2) decimal.simps) (simp add: digit_step_digit_char)
  next
    case False
    have "foldl digit_step a (decimal n) = digit_step (foldl digit_step a (decimal (n div 10))) (digit_char (n mod 10))"
      using False by (subst decimal.simps) simp
    also have "\<dots> = 10 * (a * 10 ^ length (decimal (n div 10)) + n div 10) + n mod 10"
      using False 1 [of a] by (simp add: digit_step_digit_char)
    also have "\<dots> = a * 10 ^ length (decimal n) + n"
      using False by (subst (2) decimal.simps) (simp add: algebra_simps)
    finally show ?thesis .
  qed
qed

lemma digit_step_zero: "digit_step 0 CHR ''0'' = 0"
  by (simp add: digit_step_def)

lemma foldl_zeros: "foldl digit_step 0 (replicate k CHR ''0'') = 0"
  by (induction k) (simp_all add: digit_step_zero)

lemma is_digit_zero: "is_digit CHR ''0''"
  by (simp add: is_digit_def)

lemma foldl_sprintf_0d: "foldl digit_step 0 (sprintf_0d w n) = n"
  by (simp add: sprintf_0d_def foldl_zeros foldl_decimal)

lemma sprintf_0d_digits: "list_all is_digit (sprintf_0d w n)"
  using decimal_digits [of n] by (auto simp add: sprintf_0d_def list_all_iff is_digit_zero)

lemma sprintf_0d_nonempty: "sprintf_0d w n \<noteq> []"
  by (simp add: sprintf_0d_def decimal_nonempty)

lemma foldl_digit_step_mono: "a \<le> foldl digit_step a ds"
proof (induction ds arbitrary: a)
  case Nil show ?case by simp
next
  case (Cons c cs)
  have "a \<le> digit_step a c" by (simp add: digit_step_def)
  also have "\<dots> \<le> foldl digit_step (digit_step a c) cs" by (rule Cons.IH)
  finally show ?case by simp
qed

lemma ParseUint_loop_digits:
  assumes "list_all is_digit ds" "foldl digit_step a ds \<le> maxVal" "maxVal \<le> maxUint64"
  shows "ParseUint_loop maxVal a ds = (foldl digit_step a ds, None)"
  using assms
proof (induction ds arbitrary: a)
  case Nil
  then show ?case by simp
next
  case (Cons c cs)
  let ?n1 = "digit_step a c"
  have le: "?n1 \<le> maxVal"
    using Cons.prems(2) foldl_digit_step_mono [of ?n1 cs] by simp
  then have lt: "?n1 < 2 ^ 64" using Cons.prems(3) by (simp add: maxUint64_def)
  have a10: "a * 10 < 2 ^ 64" using lt by (simp add: digit_step_def)
  have cut: "\<not> cutoff10 \<le> a" using a10 by (simp add: cutoff10_def maxUint64_def)
  have n1: "(a * 10 mod 2 ^ 64 + (of_char c - 48)) mod 2 ^ 64 = ?n1"
    using lt a10 by (simp add: digit_step_def mult.commute)
  have "ParseUint_loop maxVal a (c # cs) = ParseUint_loop maxVal ?n1 cs"
    using Cons.prems(1) cut le n1 a10 by (simp add: Let_def digit_step_def mult.commute)
  also have "\<dots> = (foldl digit_step ?n1 cs, None)"
    using Cons.prems by (intro Cons.IH) simp_all
  finally show ?case by simp
qed

lemma ParseUint_sprintf_0d:
  assumes "n < 2 ^ bitSize" "bitSize \<le> 64"
  shows "ParseUint (sprintf_0d w n) bitSize = (n, None)"
proof -
  have "(2::nat) ^ bitSize \<le> 2 ^ 64" using assms(2) by (intro power_increasing) simp_all
  then have "(2::nat) ^ bitSize - 1 \<le> maxUint64" unfolding maxUint64_def by (rule diff_le_mono)
  moreover have "foldl digit_step 0 (sprintf_0d w n) \<le> 2 ^ bitSize - 1"
    using assms(1) by (simp add: foldl_sprintf_0d)
  ultimately have "ParseUint_loop (2 ^ bitSize - 1) 0 (sprintf_0d w n) = (foldl digit_step 0 (sprintf_0d w n), None)"
    by (intro ParseUint_loop_digits sprintf_0d_digits)
  then show ?thesis by (simp add: ParseUint_def sprintf_0d_nonempty foldl_sprintf_0d)
qed

lemma is_digit_not_dot: "is_digit c \<Longrightarrow> c \<noteq> CHR ''.''"
  by (auto simp: is_digit_def)

lemma SplitN_dot2_append:
  assumes "list_all is_digit a"
  shows "SplitN_dot2 (a @ CHR ''.'' # b) = [a, b]"
proof -
  have nd: "\<forall>c\<in>set a. c \<noteq> CHR ''.''" using assms by (auto simp: list_all_iff is_digit_not_dot)
  then have "takeWhile (\<lambda>c. c \<noteq> CHR ''.'') (a @ CHR ''.'' # b) = a"
    by simp
  moreover have "dropWhile (\<lambda>c. c \<noteq> CHR ''.'') (a @ CHR ''.'' # b) = CHR ''.'' # b"
    using nd by simp
  ultimately show ?thesis by simp
qed

lemma parse_ts_prettyPrint: "parse_ts t0 (prettyPrint_ts t) = t"
proof -
  have "unat (s t) < 2 ^ 64" using unsigned_less [of "s t"] by simp
  then have p1: "ParseUint (sprintf_0d 10 (unat (s t))) 64 = (unat (s t), None)"
    by (intro ParseUint_sprintf_0d) simp_all
  have "unat (ns t) < 2 ^ 32" using unsigned_less [of "ns t"] by simp
  then have p2: "ParseUint (sprintf_0d 9 (unat (ns t))) 32 = (unat (ns t), None)"
    by (intro ParseUint_sprintf_0d) simp_all
  have "parse_ts t0 (prettyPrint_ts t) = t0\<lparr>s := s t, ns := ns t\<rparr>"
    unfolding parse_ts_def prettyPrint_ts_def
    by (simp add: SplitN_dot2_append sprintf_0d_digits p1 p2 Let_def del: SplitN_dot2.simps)
  then show ?thesis by (cases t, cases t0) simp
qed

section \<open>What \<open>ParseUint\<close> returns\<close>

lemma digit_val_le9: "is_digit c \<Longrightarrow> (of_char c :: nat) - 48 \<le> 9"
  unfolding is_digit_def by linarith

lemma ParseUint_loop_overflow:
  assumes dig: "is_digit c" and big: "maxVal < digit_step a c" and mx: "maxVal \<le> maxUint64"
  shows "ParseUint_loop maxVal a (c # cs) = (maxVal, Some ErrRange)"
proof (cases "cutoff10 \<le> a")
  case True
  then show ?thesis using dig by simp
next
  case False
  let ?d = "(of_char c :: nat) - 48"
  have a10: "a * 10 < 2 ^ 64" using False by (simp add: cutoff10_def maxUint64_def)
  have d9: "?d \<le> 9" using dig by (rule digit_val_le9)
  have det: "(a * 10 + ?d) mod 2 ^ 64 < a * 10 \<or> maxVal < (a * 10 + ?d) mod 2 ^ 64"
  proof (cases "a * 10 + ?d < 2 ^ 64")
    case True
    then show ?thesis using big by (simp add: digit_step_def mult.commute)
  next
    case False
    then have "(a * 10 + ?d) mod 2 ^ 64 = (a * 10 + ?d - 2 ^ 64) mod 2 ^ 64"
      by (simp add: le_mod_geq)
    also have "\<dots> = a * 10 + ?d - 2 ^ 64" using a10 d9 by simp
    also have "\<dots> < a * 10" using False d9 by simp
    finally show ?thesis by simp
  qed
  show ?thesis using dig \<open>\<not> cutoff10 \<le> a\<close> det a10 by (simp add: Let_def)
qed

lemma ParseUint_loop_step:
  assumes dig: "is_digit c" and fits: "digit_step a c \<le> maxVal" and mx: "maxVal \<le> maxUint64"
  shows "ParseUint_loop maxVal a (c # cs) = ParseUint_loop maxVal (digit_step a c) cs"
proof -
  have lt: "digit_step a c < 2 ^ 64" using fits mx by (simp add: maxUint64_def)
  have a10: "a * 10 < 2 ^ 64" using lt by (simp add: digit_step_def)
  have cut: "\<not> cutoff10 \<le> a" using a10 by (simp add: cutoff10_def maxUint64_def)
  have n1: "(a * 10 mod 2 ^ 64 + (of_char c - 48)) mod 2 ^ 64 = digit_step a c"
    using lt a10 by (simp add: digit_step_def mult.commute)
  show ?thesis using dig cut fits n1 a10 by (simp add: Let_def digit_step_def mult.commute)
qed

lemma ParseUint_loop_eq:
  assumes "maxVal \<le> maxUint64" "a \<le> maxVal"
  shows "ParseUint_loop maxVal a cs =
     (if maxVal < foldl digit_step a (takeWhile is_digit cs) then (maxVal, Some ErrRange)
      else if list_all is_digit cs then (foldl digit_step a cs, None)
      else (0, Some ErrSyntax))"
  using assms(2)
proof (induction cs arbitrary: a)
  case Nil
  then show ?case by simp
next
  case (Cons c cs)
  show ?case
  proof (cases "is_digit c")
    case False
    then show ?thesis using Cons.prems by simp
  next
    case dig: True
    show ?thesis
    proof (cases "digit_step a c \<le> maxVal")
      case True
      have "ParseUint_loop maxVal a (c # cs) = ParseUint_loop maxVal (digit_step a c) cs"
        using dig True assms(1) by (rule ParseUint_loop_step)
      then show ?thesis using Cons.IH [OF True] dig by simp
    next
      case False
      then have big: "maxVal < digit_step a c" by simp
      have "digit_step a c \<le> foldl digit_step (digit_step a c) (takeWhile is_digit cs)"
        by (rule foldl_digit_step_mono)
      then have "maxVal < foldl digit_step a (takeWhile is_digit (c # cs))"
        using big dig by simp
      then show ?thesis using ParseUint_loop_overflow [OF dig big assms(1)] by simp
    qed
  qed
qed

lemma ParseUint_field_value:
  assumes "bits \<le> 64"
  shows "fst (ParseUint str bits) = field_value bits str"
proof -
  define m where "m = (2::nat) ^ bits - 1"
  have "(2::nat) ^ bits \<le> 2 ^ 64" using assms by (intro power_increasing) simp_all
  then have mx: "m \<le> maxUint64" unfolding maxUint64_def m_def by (rule diff_le_mono)
  have loop: "ParseUint_loop m 0 str =
     (if m < foldl digit_step 0 (takeWhile is_digit str) then (m, Some ErrRange)
      else if list_all is_digit str then (foldl digit_step 0 str, None)
      else (0, Some ErrSyntax))"
    by (rule ParseUint_loop_eq [OF mx]) simp
  show ?thesis
    unfolding ParseUint_def field_value_def digits_value_def m_def [symmetric]
    by (simp add: loop)
qed

lemma SplitN_dot2_hd: "SplitN_dot2 v ! 0 = takeWhile (\<lambda>c. c \<noteq> CHR ''.'') v"
  by (induction v) auto

lemma takeWhile_no_dot: "CHR ''.'' \<notin> set v \<Longrightarrow> takeWhile (\<lambda>c. c \<noteq> CHR ''.'') v = v"
  by (induction v) auto

lemma parse_ts_eq:
  "parse_ts t0 v =
     \<lparr> s = of_nat (field_value 64 (takeWhile (\<lambda>c. c \<noteq> CHR ''.'') v)),
       ns = (if CHR ''.'' \<in> set v
             then of_nat (field_value 32 (tl (dropWhile (\<lambda>c. c \<noteq> CHR ''.'') v)))
             else ns t0) \<rparr>"
  by (cases t0) (simp add: parse_ts_def ParseUint_field_value Let_def takeWhile_no_dot)

section \<open>The leftmost match and the maximal runs\<close>

lemma window_iff_takeWhile:
  "n \<le> length xs \<and> list_all P (take n xs) \<longleftrightarrow> n \<le> length (takeWhile P xs)"
proof (induction xs arbitrary: n)
  case Nil
  show ?case by simp
next
  case (Cons x xs)
  show ?case
  proof (cases n)
    case 0
    then show ?thesis by simp
  next
    case (Suc k)
    then show ?thesis using Cons.IH [of k] by simp
  qed
qed

lemma hex_runs_unfold:
  "hex_runs cs =
     (if takeWhile is_hex cs = [] then hex_runs (dropWhile is_hex cs)
      else takeWhile is_hex cs # hex_runs (dropWhile is_hex cs))"
  by (cases cs) simp_all

lemma head_of_first_long_run_Cons:
  "head_of_first_long_run n (c # cs) =
     (if is_hex c \<and> n \<le> Suc (length (takeWhile is_hex cs)) then take n (c # cs)
      else head_of_first_long_run n cs)"
proof (cases "is_hex c")
  case False
  then show ?thesis by (simp add: head_of_first_long_run_def)
next
  case hex: True
  let ?T = "takeWhile is_hex cs"
  let ?rest = "hex_runs (dropWhile is_hex cs)"
  have runs: "hex_runs (c # cs) = (c # ?T) # ?rest" using hex by simp
  show ?thesis
  proof (cases "n \<le> Suc (length ?T)")
    case True
    have "take n (c # cs) = take n ((c # ?T) @ dropWhile is_hex cs)" by simp
    also have "\<dots> = take n (c # ?T)" using True by (simp only: take_append) simp
    finally show ?thesis using hex True runs by (simp add: head_of_first_long_run_def)
  next
    case False
    then have short: "\<not> n \<le> length ?T" by simp
    have "head_of_first_long_run n cs =
            (case filter (\<lambda>r. n \<le> length r) ?rest of [] \<Rightarrow> [] | r # _ \<Rightarrow> take n r)"
      unfolding head_of_first_long_run_def
      by (subst hex_runs_unfold) (simp add: short)
    then show ?thesis using hex False runs by (simp add: head_of_first_long_run_def)
  qed
qed

lemma FindString_hex32_runs: "FindString_hex32 fn = head_of_first_long_run 32 fn"
proof (induction fn)
  case Nil
  show ?case by (simp add: head_of_first_long_run_def)
next
  case (Cons c cs)
  have w: "32 \<le> length (c # cs) \<and> list_all is_hex (take 32 (c # cs))
             \<longleftrightarrow> is_hex c \<and> 32 \<le> Suc (length (takeWhile is_hex cs))"
    using window_iff_takeWhile [of 32 "c # cs" is_hex] by (cases "is_hex c") simp_all
  show ?case
    unfolding FindString_hex32.simps head_of_first_long_run_Cons w Cons.IH ..
qed

lemma FindString_hex1_filter: "FindString_hex1 fn = take 1 (filter is_hex fn)"
  by (induction fn) simp_all

section \<open>The parts of a check in closed form\<close>

lemma getStoredAttr_eq:
  "getStoredAttr b f =
     ((stored_of b f, None), f\<lparr>oplog := oplog f @ [FGet (digest_attr b), FGet (stamp_attr b)]\<rparr>)"
  by (simp add: stored_of_def getStoredAttr_def getStoredAttrSha256_eq getStoredAttrMd5_eq
        digest_attr_def stamp_attr_def)

lemma mtime_at_eq:
  "mtime_at f k =
     (case stat_seq f (stat_calls f + k) of
        Inl e \<Rightarrow> (zeroFileTimeStamp, Some e)
      | Inr fi \<Rightarrow> (\<lparr> s = word_of_int (ModTime_Unix fi), ns = word_of_int (ModTime_Nanosecond fi) \<rparr>, None))"
  by (simp add: mtime_at_def getMtime_def file_Stat_def split: sum.splits)

lemma getMtime_eq:
  "getMtime f = (mtime_at f 0, f\<lparr>stat_calls := Suc (stat_calls f), oplog := oplog f @ [Stat]\<rparr>)"
  by (simp add: mtime_at_eq getMtime_def file_Stat_def split: sum.splits)

lemma mtime_at_upd [simp]:
  "mtime_at (f\<lparr>oplog := l\<rparr>) k = mtime_at f k"
  "mtime_at (f\<lparr>stat_calls := Suc (stat_calls f)\<rparr>) k = mtime_at f (Suc k)"
  by (simp_all add: mtime_at_eq)

text \<open>The attributes a successful or failed computation returns.\<close>

lemma getActualAttr_fst_oplog [simp]:
  "fst (getActualAttr H b (f\<lparr>oplog := l\<rparr>)) = fst (getActualAttr H b f)"
  by (simp add: getActualAttr_def getActualAttrMd5_def getActualAttrSha256_def getMtime_eq io_Copy_def
        Let_def split: prod.splits sum.splits option.splits)

lemma getActualAttr_frame:
  "xattrs (snd (getActualAttr H b f)) = xattrs f"
  "fget_fault (snd (getActualAttr H b f)) = fget_fault f"
  "fset_fault (snd (getActualAttr H b f)) = fset_fault f"
  "fremove_fault (snd (getActualAttr H b f)) = fremove_fault f"
  "stat_seq (snd (getActualAttr H b f)) = stat_seq f"
  "copy_result (snd (getActualAttr H b f)) = copy_result f"
  by (simp_all add: getActualAttr_def getActualAttrMd5_def getActualAttrSha256_def getMtime_eq io_Copy_def
        Let_def split: prod.splits sum.splits option.splits)

lemma getActualAttr_success:
  assumes "mtime_at f 0 = (t, None)" "copy_result f = Inr content" "mtime_at f 1 = (t, None)"
  shows "getActualAttr H b f =
     ((if b then zeroFileAttr\<lparr>md5 := sprintf_x (md5_Sum H content), tsMd5 := t\<rparr>
       else zeroFileAttr\<lparr>sha256 := sprintf_x (sha256_Sum H content), ts := t\<rparr>, None),
      f\<lparr>stat_calls := Suc (Suc (stat_calls f)), oplog := oplog f @ [Stat, Copy, Stat]\<rparr>)"
  using assms
  by (simp add: getActualAttr_def getActualAttrMd5_def getActualAttrSha256_def getMtime_eq io_Copy_def
        Let_def zeroFileAttr_def)

lemma getActualAttr_torn:
  assumes "mtime_at f 0 = (t1, None)" "copy_result f = Inr content" "mtime_at f 1 = (t2, None)" "t1 \<noteq> t2"
  shows "getActualAttr H b f =
     ((if b then zeroFileAttr\<lparr>md5 := zeroMd5, tsMd5 := t1\<rparr>
       else zeroFileAttr\<lparr>sha256 := zeroSha256, ts := t1\<rparr>, Some (Errno EINPROGRESS)),
      f\<lparr>stat_calls := Suc (Suc (stat_calls f)), oplog := oplog f @ [Stat, Copy, Stat]\<rparr>)"
  using assms
  by (simp add: getActualAttr_def getActualAttrMd5_def getActualAttrSha256_def getMtime_eq io_Copy_def
        Let_def zeroFileAttr_def)

lemma getActualAttr_None_ops:
  assumes "fst (getActualAttr H b f) = (actual, None)"
  shows "oplog (snd (getActualAttr H b f)) = oplog f @ [Stat, Copy, Stat]"
  using assms
  by (simp add: getActualAttr_def getActualAttrMd5_def getActualAttrSha256_def getMtime_eq io_Copy_def
        Let_def split: prod.splits sum.splits option.splits if_splits)

lemma getActualAttr_no_write:
  "\<exists>ops. oplog (snd (getActualAttr H b f)) = oplog f @ ops \<and> \<not> list_ex is_write ops"
  by (simp add: getActualAttr_def getActualAttrMd5_def getActualAttrSha256_def getMtime_eq io_Copy_def
        Let_def is_write_def split: prod.splits sum.splits option.splits)

lemma storeAttr_eq:
  "storeAttr b f a =
     (store_error b f,
      f\<lparr>xattrs :=
           (case fset_fault f (digest_attr b) of
              Some _ \<Rightarrow> xattrs f
            | None \<Rightarrow>
               (case fset_fault f (stamp_attr b) of
                  Some _ \<Rightarrow> (xattrs f)(digest_attr b \<mapsto> digest_of b a)
                | None \<Rightarrow> (xattrs f)(digest_attr b \<mapsto> digest_of b a,
                                     stamp_attr b \<mapsto> prettyPrint_ts (stamp_of b a)))),
        oplog := oplog f @
           (case fset_fault f (digest_attr b) of
              Some _ \<Rightarrow> [FSet (digest_attr b) (digest_of b a)]
            | None \<Rightarrow> [FSet (digest_attr b) (digest_of b a),
                       FSet (stamp_attr b) (prettyPrint_ts (stamp_of b a))])\<rparr>)"
  by (simp add: storeAttr_def xattr_FSet_def store_error_def digest_attr_def stamp_attr_def
        digest_of_def stamp_of_def Let_def split: option.splits)

section \<open>The comparison and the write in closed form\<close>

lemma row_iff_truth_table: "row b stored actual v \<longleftrightarrow> truth_table b stored actual = v"
  by (cases v) (auto simp add: truth_table_def row_def Let_def)

lemma truth_table_code:
  "truth_table b stored actual =
     (if timesMatch b stored actual then
        (if checksumsMatch b stored actual then Ok else Corrupt)
      else if checksumsMatch b stored actual then TimeChanged
      else if bytesMatchZero b stored \<and> timesMatchZero b stored then New
      else Outdated)"
  by (auto simp add: truth_table_def row_def Let_def timesMatch_def checksumsMatch_def
        bytesMatchZero_def timesMatchZero_def stamp_of_def digest_of_def zero_digest_def)

lemma classified_inject: "classified w w' v \<Longrightarrow> classified w w' v' \<Longrightarrow> v = v'"
  unfolding classified_def
  by (cases v; cases v'; cases "stats w"; simp add: counted_def)

text \<open>The end of a check that writes.\<close>

lemma checkFile_store_stats:
  "stats (checkFile_store b fn f stored actual w) =
     (stats w)\<lparr>errorsWritingXattr :=
        errorsWritingXattr (stats w) + (if store_error b f = None then 0 else 1)\<rparr>"
  by (simp add: checkFile_store_def storeAttr_eq close_file_def upd_stats_def Eprintf_def
        printComparison_def Printf_def Let_def split: option.splits)

lemma checkFile_store_printed:
  "printed (checkFile_store b fn f stored actual w) =
     printed w
     @ (if \<not> qq (args w)
        then [Stdout ('' stored: '' @ prettyPrint stored @ newline @ '' actual: '' @ prettyPrint actual @ newline)]
        else [])
     @ (case store_error b f of Some e \<Rightarrow> [Stderr_Error e] | None \<Rightarrow> [])"
  by (simp add: checkFile_store_def storeAttr_eq close_file_def upd_stats_def Eprintf_def
        printComparison_def Printf_def Let_def split: option.splits)

lemma checkFile_store_files:
  "files (checkFile_store b fn f stored actual w) = (files w)(fn := Inr (snd (storeAttr b f actual)))"
  by (simp add: checkFile_store_def close_file_def upd_stats_def Eprintf_def
        printComparison_def Printf_def Let_def split: option.splits prod.splits)

lemma checkFile_store_flags:
  "args (checkFile_store b fn f stored actual w) = args w"
  "gBOnlyFilename (checkFile_store b fn f stored actual w) = gBOnlyFilename w"
  "gBCheckFilename (checkFile_store b fn f stored actual w) = gBCheckFilename w"
  by (simp_all add: checkFile_store_def close_file_def upd_stats_def Eprintf_def
        printComparison_def Printf_def Let_def split: option.splits prod.splits)

text \<open>The comparison.\<close>

lemma checkFile_compare_stats:
  "stats (checkFile_compare b fn f stored actual w) =
     (counted (final_verdict b fn (gBCheckFilename w) stored actual) (stats w))
       \<lparr>errorsWritingXattr := errorsWritingXattr (stats w) +
          (if persists (truth_table b stored actual) \<and> store_error b f \<noteq> None then 1 else 0)\<rparr>"
  by (cases "stats w")
    (simp add: checkFile_compare_def final_verdict_def truth_table_code checkFile_store_stats
       counted_def persists_def upd_stats_def Printf_def Eprintf_def close_file_def printComparison_def)

lemma checkFile_compare_files:
  "files (checkFile_compare b fn f stored actual w) =
     (files w)(fn := Inr (if persists (truth_table b stored actual)
                          then snd (storeAttr b f actual) else f))"
  by (simp add: checkFile_compare_def truth_table_code checkFile_store_files
       persists_def upd_stats_def Printf_def Eprintf_def close_file_def printComparison_def)

section \<open>The check in normal mode\<close>

lemma checkFile_compare_printed_fnm:
  assumes "truth_table b stored actual = Ok" "gBCheckFilename w" "\<not> checkFilename b fn actual"
  shows "printed (checkFile_compare b fn f stored actual w) =
     printed w @
     (if \<not> q (args w)
      then [Stdout (''<filename not matched> '' @ fn @ newline),
            Stdout ('' stored: '' @ prettyPrint stored @ newline @ '' actual: '' @ prettyPrint actual @ newline)]
      else [])"
  using assms
  by (simp add: checkFile_compare_def truth_table_code close_file_def Printf_def printComparison_def
        split: if_splits)

lemma checkFile_open_error:
  assumes "files w fn = Inl e"
  shows "checkFile H b fn w =
     w\<lparr>stats := (stats w)\<lparr>total' := total' (stats w) + 1, errorsOpening := errorsOpening (stats w) + 1\<rparr>,
       printed := printed w @ [Stderr_Error e]\<rparr>"
  using assms by (simp add: checkFile_def upd_stats_def Eprintf_def Let_def)

lemma checkFile_normal:
  assumes "files w fn = Inr f" "\<not> remove' (args w)" "\<not> gBOnlyFilename w"
  shows "checkFile H b fn w =
     (let w1 = upd_stats (\<lambda>st. st\<lparr>total' := total' st + 1\<rparr>) w;
          f2 = snd (getActualAttr H b (f\<lparr>oplog := oplog f @ [FGet (digest_attr b), FGet (stamp_attr b)]\<rparr>))
      in case fst (getActualAttr H b f) of
           (actual, Some err) \<Rightarrow>
             if err = Errno EINPROGRESS then
               close_file fn f2
                 (upd_stats (\<lambda>st. st\<lparr>inprogress := inprogress st + 1\<rparr>)
                    (if \<not> qq (args w)
                     then Printf (''<concurrent modification> '' @ fn @ newline) w1 else w1))
             else
               close_file fn f2
                 (upd_stats (\<lambda>st. st\<lparr>errorsOther := errorsOther st + 1\<rparr>)
                    (Eprintf (Stderr_Error err) w1))
         | (actual, None) \<Rightarrow> checkFile_compare b fn f2 (stored_of b f) actual w1)"
proof -
  let ?f1 = "f\<lparr>oplog := oplog f @ [FGet (digest_attr b), FGet (stamp_attr b)]\<rparr>"
  obtain actual err f2 where a: "getActualAttr H b ?f1 = ((actual, err), f2)"
    by (metis surj_pair)
  then have b: "fst (getActualAttr H b f) = (actual, err)"
    using getActualAttr_fst_oplog [where H = H and b = b and f = f] by (metis fst_conv)
  show ?thesis
    using assms
    by (simp add: checkFile_def getStoredAttr_eq a b upd_stats_def Let_def split: option.splits)
qed

lemma persists_final_verdict:
  "persists (final_verdict b fn chk stored actual) = persists (truth_table b stored actual)"
  by (simp add: final_verdict_def persists_def)

lemma store_error_frame:
  "store_error b (snd (getActualAttr H b' f)) = store_error b f"
  "store_error b (f\<lparr>oplog := l\<rparr>) = store_error b f"
  by (simp_all add: store_error_def getActualAttr_frame split: option.splits)

lemma checkFile_normal_stats:
  assumes "files w fn = Inr f" "\<not> remove' (args w)" "\<not> gBOnlyFilename w"
  shows "stats (checkFile H b fn w) =
     (counted (spec_verdict H b fn w) ((stats w)\<lparr>total' := total' (stats w) + 1\<rparr>))
       \<lparr>errorsWritingXattr := errorsWritingXattr (stats w) +
          (if persists (spec_verdict H b fn w) \<and> store_error b f \<noteq> None then 1 else 0)\<rparr>"
proof -
  obtain actual err where a: "fst (getActualAttr H b f) = (actual, err)"
    by (metis surj_pair)
  show ?thesis
  proof (cases err)
    case None
    then show ?thesis
      using assms a
      by (simp add: checkFile_normal spec_verdict_def checkFile_compare_stats upd_stats_def
            persists_final_verdict store_error_frame Let_def)
  next
    case (Some e)
    then show ?thesis
      using assms a
      by (cases "stats w")
        (simp add: checkFile_normal spec_verdict_def upd_stats_def close_file_def Printf_def
           Eprintf_def counted_def persists_def Let_def)
  qed
qed

lemma checkFile_normal_files:
  assumes "files w fn = Inr f" "\<not> remove' (args w)" "\<not> gBOnlyFilename w"
  shows "files (checkFile H b fn w) =
     (files w)(fn := Inr
        (let f2 = snd (getActualAttr H b (f\<lparr>oplog := oplog f @ [FGet (digest_attr b), FGet (stamp_attr b)]\<rparr>))
         in if persists (spec_verdict H b fn w)
            then snd (storeAttr b f2 (fst (fst (getActualAttr H b f)))) else f2))"
proof -
  obtain actual err where a: "fst (getActualAttr H b f) = (actual, err)"
    by (metis surj_pair)
  show ?thesis
  proof (cases err)
    case None
    then show ?thesis
      using assms a
      by (simp add: checkFile_normal spec_verdict_def checkFile_compare_files upd_stats_def
            persists_final_verdict Let_def)
  next
    case (Some e)
    then show ?thesis
      using assms a
      by (simp add: checkFile_normal spec_verdict_def upd_stats_def close_file_def Printf_def
           Eprintf_def persists_def Let_def)
  qed
qed

lemma checkFile_normal_ops:
  assumes "files w fn = Inr f" "\<not> remove' (args w)" "\<not> gBOnlyFilename w"
  shows "\<exists>hops. \<not> list_ex is_write hops \<and>
     ops_during w (checkFile H b fn w) fn =
       [FGet (digest_attr b), FGet (stamp_attr b)] @ hops @
       (if persists (spec_verdict H b fn w)
        then FSet (digest_attr b) (digest_of b (fst (fst (getActualAttr H b f)))) #
             (if fset_fault f (digest_attr b) = None
              then [FSet (stamp_attr b) (prettyPrint_ts (stamp_of b (fst (fst (getActualAttr H b f)))))]
              else [])
        else [])"
proof -
  let ?f1 = "f\<lparr>oplog := oplog f @ [FGet (digest_attr b), FGet (stamp_attr b)]\<rparr>"
  obtain hops where h: "oplog (snd (getActualAttr H b ?f1)) = oplog ?f1 @ hops" "\<not> list_ex is_write hops"
    using getActualAttr_no_write [of H b ?f1] by blast
  have "ops_during w (checkFile H b fn w) fn =
       [FGet (digest_attr b), FGet (stamp_attr b)] @ hops @
       (if persists (spec_verdict H b fn w)
        then FSet (digest_attr b) (digest_of b (fst (fst (getActualAttr H b f)))) #
             (if fset_fault f (digest_attr b) = None
              then [FSet (stamp_attr b) (prettyPrint_ts (stamp_of b (fst (fst (getActualAttr H b f)))))]
              else [])
        else [])"
    using assms h(1)
    by (simp add: ops_during_def checkFile_normal_files storeAttr_eq getActualAttr_frame Let_def
          split: option.splits)
  then show ?thesis using h(2) by blast
qed

lemma checkFile_normal_store_invoked:
  assumes "files w fn = Inr f" "\<not> remove' (args w)" "\<not> gBOnlyFilename w"
  shows "store_invoked w (checkFile H b fn w) fn \<longleftrightarrow> persists (spec_verdict H b fn w)"
proof -
  obtain hops where h: "\<not> list_ex is_write hops"
     "ops_during w (checkFile H b fn w) fn =
       [FGet (digest_attr b), FGet (stamp_attr b)] @ hops @
       (if persists (spec_verdict H b fn w)
        then FSet (digest_attr b) (digest_of b (fst (fst (getActualAttr H b f)))) #
             (if fset_fault f (digest_attr b) = None
              then [FSet (stamp_attr b) (prettyPrint_ts (stamp_of b (fst (fst (getActualAttr H b f)))))]
              else [])
        else [])"
    using checkFile_normal_ops [OF assms] by blast
  have "\<not> list_ex is_FSet hops"
    using h(1) by (auto simp add: list_ex_iff is_write_def is_FSet_def split: syscall.splits)
  then show ?thesis
    unfolding store_invoked_def h(2) by (simp add: is_FSet_def)
qed

lemma checkFile_normal_no_write:
  assumes "files w fn = Inr f" "\<not> remove' (args w)" "\<not> gBOnlyFilename w"
    and "\<not> persists (spec_verdict H b fn w)"
  shows "\<not> list_ex is_write (ops_during w (checkFile H b fn w) fn)"
    and "xattrs_at (checkFile H b fn w) fn = xattrs_at w fn"
proof -
  obtain hops where h: "\<not> list_ex is_write hops"
     "ops_during w (checkFile H b fn w) fn = [FGet (digest_attr b), FGet (stamp_attr b)] @ hops"
    using checkFile_normal_ops [OF assms(1-3), of H b] assms(4) by auto
  show "\<not> list_ex is_write (ops_during w (checkFile H b fn w) fn)"
    unfolding h(2) using h(1) by (simp add: is_write_def)
  show "xattrs_at (checkFile H b fn w) fn = xattrs_at w fn"
    using assms by (simp add: xattrs_at_def checkFile_normal_files getActualAttr_frame Let_def)
qed

section \<open>The examples evaluated\<close>

lemma demo_md5: "sprintf_x (md5_Sum demo_hashlib ''hello'') = ''5d41402abc4b2a76b9719d911017c592''"
  by (simp add: demo_hashlib_def sprintf_x_def hex_char_eval)

lemma demo_sha256:
  "sprintf_x (sha256_Sum demo_hashlib ''hello'')
     = ''2cf24dba5fb0a30e26e83b2ac5b9e29e1b161e5c1fa7425e73043362938b9824''"
  by (simp add: demo_hashlib_def sprintf_x_def hex_char_eval)

lemma plain_mtime:
  "mtime_at plain_file k = (\<lparr> s = 1560177334, ns = 20775051 \<rparr>, None)"
  by (simp add: mtime_at_eq plain_file_def)

lemma tagged_mtime:
  "mtime_at tagged_file k = (\<lparr> s = 1560177334, ns = 20775051 \<rparr>, None)"
  by (simp add: mtime_at_eq tagged_file_def plain_file_def)

lemma actual_plain_sha256: "fst (getActualAttr demo_hashlib False plain_file) = (hello_sha256, None)"
proof -
  have c: "copy_result plain_file = Inr ''hello''" by (simp add: plain_file_def)
  show ?thesis
    by (simp add: getActualAttr_success [OF plain_mtime c plain_mtime]
          demo_sha256 hello_sha256_def zeroFileAttr_def)
qed

lemma actual_tagged_md5: "fst (getActualAttr demo_hashlib True tagged_file) = (hello_md5, None)"
proof -
  have c: "copy_result tagged_file = Inr ''hello''" by (simp add: tagged_file_def plain_file_def)
  show ?thesis
    by (simp add: getActualAttr_success [OF tagged_mtime c tagged_mtime]
          demo_md5 hello_md5_def zeroFileAttr_def)
qed

lemma stored_plain: "stored_of False plain_file = zeroFileAttr\<lparr>sha256 := zeroSha256\<rparr>"
  by (simp add: stored_of_def getStoredAttr_def getStoredAttrSha256_eq read_attr_def plain_file_def zeroFileAttr_def)

lemma stored_tagged: "stored_of True tagged_file = hello_md5"
proof -
  have a: "read_attr tagged_file xattrMd5 = Some ''5d41402abc4b2a76b9719d911017c592''"
    "read_attr tagged_file xattrTsMd5 = Some ''1560177334.020775051''"
    by (simp_all add: read_attr_def tagged_file_def plain_file_def xattrMd5_def xattrTsMd5_def)
  have b: "prettyPrint_ts \<lparr> s = 1560177334, ns = 20775051 \<rparr> = ''1560177334.020775051''"
    by (simp add: prettyPrint_ts_def sprintf_0d_def decimal.simps digit_char_eval)
  have c: "parse_ts zeroFileTimeStamp ''1560177334.020775051'' = \<lparr> s = 1560177334, ns = 20775051 \<rparr>"
    using parse_ts_prettyPrint [of zeroFileTimeStamp "\<lparr> s = 1560177334, ns = 20775051 \<rparr>"] b by simp
  show ?thesis
    by (simp add: stored_of_def getStoredAttr_def getStoredAttrMd5_eq a c hello_md5_def
          copy_bytes_def zeroMd5_def)
qed

section \<open>The verdict a check counts\<close>

lemma classified_spec_verdict:
  assumes "files w fn = Inr f" "\<not> remove' (args w)" "\<not> gBOnlyFilename w"
  shows "classified w (checkFile H b fn w) v \<longleftrightarrow> v = spec_verdict H b fn w"
proof -
  have "classified w (checkFile H b fn w) (spec_verdict H b fn w)"
    unfolding classified_def checkFile_normal_stats [OF assms]
    by (cases "spec_verdict H b fn w"; cases "stats w") (simp_all add: counted_def)
  then show ?thesis using classified_inject by blast
qed

lemma row_unique: "\<exists>!v. row b stored actual v"
  by (simp add: row_iff_truth_table)

lemma world_of_simps:
  "files (world_of fn f) fn = Inr f" "\<not> remove' (args (world_of fn f))"
  "\<not> gBOnlyFilename (world_of fn f)" "\<not> gBCheckFilename (world_of fn f)"
  "stats (world_of fn f) = zero_stats" "printed (world_of fn f) = []"
  "\<not> q (args (world_of fn f))" "\<not> qq (args (world_of fn f))"
  by (simp_all add: world_of_def)

lemma verifying_world_simps:
  "files verifying_world ''notes.txt'' = Inr tagged_file" "\<not> remove' (args verifying_world)"
  "\<not> gBOnlyFilename verifying_world" "gBCheckFilename verifying_world"
  "stats verifying_world = zero_stats" "printed verifying_world = []"
  "\<not> q (args verifying_world)"
  by (simp_all add: verifying_world_def world_of_def)

lemma row_plain_new: "row False (stored_of False plain_file) hello_sha256 New"
  by (simp add: row_def stored_plain hello_sha256_def stamp_of_def digest_of_def zero_digest_def
        zeroFileAttr_def zeroFileTimeStamp_def zeroSha256_def)

lemma row_tagged_ok: "row True (stored_of True tagged_file) hello_md5 Ok"
  by (simp add: row_def stored_tagged)

lemma notes_not_matched: "\<not> checkFilename True ''notes.txt'' hello_md5"
  by (simp add: checkFilename_def filepath_Base_def extractChecksumFromFilename_def hello_md5_def)

section \<open>The truth table of the comparison\<close>

text \<open>
  Claim C1, as amended. In normal mode (the file opens, remove mode and file-name-only
  mode are off), when the actual attributes were computed without error, exactly one row
  of the truth table over the fields of the selected algorithm holds: equal timestamps
  and equal digests (Ok), equal timestamps and different digests (Corrupt), different
  timestamps and equal digests (TimeChanged), both different with the stored digest and
  the stored timestamp zero (New), both different otherwise (Outdated). The check counts
  the file under the verdict of that row and under no other, except that on the row Ok,
  when the file name is to be verified and its checksum is not the actual digest, it
  counts the file under FilenameNotMatched instead. The six outcomes exclude one another.
\<close>

theorem checkFile_truth_table:
  assumes "files w fn = Inr f" "\<not> remove' (args w)" "\<not> gBOnlyFilename w"
    and "fst (getActualAttr H bMd5 f) = (actual, None)"
  shows "(\<exists>!v. row bMd5 (stored_of bMd5 f) actual v) \<and>
    (row bMd5 (stored_of bMd5 f) actual v \<longrightarrow>
       (classified w (checkFile H bMd5 fn w) v' \<longleftrightarrow>
          v' = (if v = Ok \<and> gBCheckFilename w \<and> \<not> checkFilename bMd5 fn actual
                then FilenameNotMatched else v)))"
proof -
  have "spec_verdict H bMd5 fn w = final_verdict bMd5 fn (gBCheckFilename w) (stored_of bMd5 f) actual"
    using assms(1,4) by (simp add: spec_verdict_def)
  then show ?thesis
    using classified_spec_verdict [OF assms(1-3), of H bMd5 v']
    by (auto simp add: row_unique row_iff_truth_table final_verdict_def)
qed

theorem checkFile_truth_table_witness:
  "files (world_of ''hello.txt'' plain_file) ''hello.txt'' = Inr plain_file \<and>
   \<not> remove' (args (world_of ''hello.txt'' plain_file)) \<and>
   \<not> gBOnlyFilename (world_of ''hello.txt'' plain_file) \<and>
   fst (getActualAttr demo_hashlib False plain_file) = (hello_sha256, None) \<and>
   row False (stored_of False plain_file) hello_sha256 New \<and>
   classified (world_of ''hello.txt'' plain_file)
     (checkFile demo_hashlib False ''hello.txt'' (world_of ''hello.txt'' plain_file)) New"
  using checkFile_truth_table [of "world_of ''hello.txt'' plain_file" "''hello.txt''" plain_file
      demo_hashlib False hello_sha256 New New]
  by (simp add: world_of_simps actual_plain_sha256 row_plain_new)

text \<open>
  The claim as it was written has the first row always yield Ok. With the verification
  of the file name switched on, a file whose stored and actual MD5 attributes agree and
  whose name holds no checksum is on the first row and is not counted as Ok.
\<close>

theorem checkFile_first_row_not_ok:
  "files verifying_world ''notes.txt'' = Inr tagged_file \<and>
   \<not> remove' (args verifying_world) \<and>
   \<not> gBOnlyFilename verifying_world \<and>
   fst (getActualAttr demo_hashlib True tagged_file) = (hello_md5, None) \<and>
   row True (stored_of True tagged_file) hello_md5 Ok \<and>
   stats (checkFile demo_hashlib True ''notes.txt'' verifying_world) = zero_stats\<lparr>total' := 1\<rparr> \<and>
   \<not> classified verifying_world (checkFile demo_hashlib True ''notes.txt'' verifying_world) Ok"
proof -
  have v: "spec_verdict demo_hashlib True ''notes.txt'' verifying_world = FilenameNotMatched"
    using row_tagged_ok
    by (simp add: spec_verdict_def verifying_world_simps actual_tagged_md5 final_verdict_def
          row_iff_truth_table notes_not_matched)
  have st: "stats (checkFile demo_hashlib True ''notes.txt'' verifying_world) = zero_stats\<lparr>total' := 1\<rparr>"
    by (simp add: checkFile_normal_stats [OF verifying_world_simps(1-3)] v counted_def persists_def
          verifying_world_simps zero_stats_def)
  have "\<not> classified verifying_world (checkFile demo_hashlib True ''notes.txt'' verifying_world) Ok"
    by (simp add: classified_def st counted_def verifying_world_simps zero_stats_def)
  then show ?thesis
    by (simp add: verifying_world_simps actual_tagged_md5 row_tagged_ok st)
qed

section \<open>A file modified while it is read\<close>

lemma checkFile_torn:
  assumes "files w fn = Inr f" "\<not> remove' (args w)" "\<not> gBOnlyFilename w"
    and "mtime_at f 0 = (t1, None)" "copy_result f = Inr content" "mtime_at f 1 = (t2, None)" "t1 \<noteq> t2"
  shows "checkFile H b fn w =
     w\<lparr>stats := (stats w)\<lparr>total' := total' (stats w) + 1, inprogress := inprogress (stats w) + 1\<rparr>,
       files := (files w)(fn := Inr (f\<lparr>stat_calls := Suc (Suc (stat_calls f)),
                  oplog := oplog f @ [FGet (digest_attr b), FGet (stamp_attr b), Stat, Copy, Stat]\<rparr>)),
       printed := printed w @
         (if \<not> qq (args w) then [Stdout (''<concurrent modification> '' @ fn @ newline)] else [])\<rparr>"
proof -
  let ?f1 = "f\<lparr>oplog := oplog f @ [FGet (digest_attr b), FGet (stamp_attr b)]\<rparr>"
  have m: "mtime_at ?f1 0 = (t1, None)" "copy_result ?f1 = Inr content" "mtime_at ?f1 1 = (t2, None)"
    using assms(4-6) by simp_all
  show ?thesis
    by (simp add: checkFile_normal [OF assms(1-3)] getActualAttr_torn [OF assms(4-7)]
          getActualAttr_torn [OF m assms(7)] Let_def upd_stats_def close_file_def Printf_def)
qed

lemma torn_mtime:
  "mtime_at torn_file 0 = (\<lparr> s = 1560177334, ns = 20775051 \<rparr>, None)"
  "mtime_at torn_file 1 = (\<lparr> s = 1560177335, ns = 0 \<rparr>, None)"
  "copy_result torn_file = Inr ''hello''"
  "mtime_at torn_file (Suc 0) = (\<lparr> s = 1560177335, ns = 0 \<rparr>, None)"
  by (simp_all add: mtime_at_eq torn_file_def plain_file_def)

text \<open>
  Claim C2. When the modification time read after the content was streamed differs from
  the one read before, the computation of the actual attributes returns the error
  \<open>EINPROGRESS\<close> and attributes whose digest is still the zero digest; the check of
  the file in normal mode counts a concurrent modification and nothing else, reads the
  two stored attributes, the modification time twice and the content once, writes no
  attribute, and prints its one line unless the switch \<open>qq\<close> is set.
\<close>

theorem checkFile_concurrent_modification:
  assumes "mtime_at f 0 = (t1, None)" "copy_result f = Inr content" "mtime_at f 1 = (t2, None)"
    and "t1 \<noteq> t2"
  shows "snd (fst (getActualAttr H bMd5 f)) = Some (Errno EINPROGRESS) \<and>
    digest_of bMd5 (fst (fst (getActualAttr H bMd5 f))) = zero_digest bMd5 \<and>
    (files w fn = Inr f \<and> \<not> remove' (args w) \<and> \<not> gBOnlyFilename w \<longrightarrow>
       classified w (checkFile H bMd5 fn w) ConcurrentModification \<and>
       stats (checkFile H bMd5 fn w) =
         (stats w)\<lparr>total' := total' (stats w) + 1, inprogress := inprogress (stats w) + 1\<rparr> \<and>
       ops_during w (checkFile H bMd5 fn w) fn =
         [FGet (digest_attr bMd5), FGet (stamp_attr bMd5), Stat, Copy, Stat] \<and>
       \<not> store_invoked w (checkFile H bMd5 fn w) fn \<and>
       xattrs_at (checkFile H bMd5 fn w) fn = xattrs_at w fn \<and>
       printed (checkFile H bMd5 fn w) =
         printed w @
         (if \<not> qq (args w) then [Stdout (''<concurrent modification> '' @ fn @ newline)] else []))"
proof -
  have a: "snd (fst (getActualAttr H bMd5 f)) = Some (Errno EINPROGRESS)"
    "digest_of bMd5 (fst (fst (getActualAttr H bMd5 f))) = zero_digest bMd5"
    by (simp_all add: getActualAttr_torn [OF assms] digest_of_def zero_digest_def)
  have b: "classified w (checkFile H bMd5 fn w) ConcurrentModification \<and>
       stats (checkFile H bMd5 fn w) =
         (stats w)\<lparr>total' := total' (stats w) + 1, inprogress := inprogress (stats w) + 1\<rparr> \<and>
       ops_during w (checkFile H bMd5 fn w) fn =
         [FGet (digest_attr bMd5), FGet (stamp_attr bMd5), Stat, Copy, Stat] \<and>
       \<not> store_invoked w (checkFile H bMd5 fn w) fn \<and>
       xattrs_at (checkFile H bMd5 fn w) fn = xattrs_at w fn \<and>
       printed (checkFile H bMd5 fn w) =
         printed w @
         (if \<not> qq (args w) then [Stdout (''<concurrent modification> '' @ fn @ newline)] else [])"
    if n: "files w fn = Inr f" "\<not> remove' (args w)" "\<not> gBOnlyFilename w"
  proof -
    note eq = checkFile_torn [OF n assms, of H bMd5]
    show ?thesis
      unfolding eq using n(1)
      by (cases "stats w")
        (simp add: classified_def counted_def ops_during_def store_invoked_def xattrs_at_def is_FSet_def)
  qed
  show ?thesis using a b by blast
qed

theorem checkFile_concurrent_modification_witness:
  "mtime_at torn_file 0 = (\<lparr> s = 1560177334, ns = 20775051 \<rparr>, None) \<and>
   copy_result torn_file = Inr ''hello'' \<and>
   mtime_at torn_file 1 = (\<lparr> s = 1560177335, ns = 0 \<rparr>, None) \<and>
   \<lparr> s = 1560177334, ns = 20775051 \<rparr> \<noteq> \<lparr> s = 1560177335, ns = 0 \<rparr> \<and>
   files (world_of ''hello.txt'' torn_file) ''hello.txt'' = Inr torn_file \<and>
   \<not> remove' (args (world_of ''hello.txt'' torn_file)) \<and>
   \<not> gBOnlyFilename (world_of ''hello.txt'' torn_file) \<and>
   getActualAttr demo_hashlib False torn_file =
     ((zeroFileAttr\<lparr>sha256 := zeroSha256, ts := \<lparr> s = 1560177334, ns = 20775051 \<rparr>\<rparr>,
       Some (Errno EINPROGRESS)),
      torn_file\<lparr>stat_calls := 2, oplog := [Stat, Copy, Stat]\<rparr>) \<and>
   stats (checkFile demo_hashlib False ''hello.txt'' (world_of ''hello.txt'' torn_file)) =
     zero_stats\<lparr>total' := 1, inprogress := 1\<rparr> \<and>
   ops_during (world_of ''hello.txt'' torn_file)
     (checkFile demo_hashlib False ''hello.txt'' (world_of ''hello.txt'' torn_file)) ''hello.txt'' =
     [FGet xattrSha256, FGet xattrTsSha256, Stat, Copy, Stat] \<and>
   printed (checkFile demo_hashlib False ''hello.txt'' (world_of ''hello.txt'' torn_file)) =
     [Stdout (''<concurrent modification> hello.txt'' @ newline)]"
proof -
  have ne: "\<lparr> s = 1560177334, ns = 20775051 \<rparr> \<noteq> \<lparr> s = 1560177335 :: 64 word, ns = 0 :: 32 word \<rparr>"
    by simp
  have g: "getActualAttr demo_hashlib False torn_file =
     ((zeroFileAttr\<lparr>sha256 := zeroSha256, ts := \<lparr> s = 1560177334, ns = 20775051 \<rparr>\<rparr>,
       Some (Errno EINPROGRESS)),
      torn_file\<lparr>stat_calls := 2, oplog := [Stat, Copy, Stat]\<rparr>)"
    by (simp add: getActualAttr_torn [OF torn_mtime(1) torn_mtime(3) torn_mtime(2) ne])
      (simp add: torn_file_def plain_file_def)
  show ?thesis
    using checkFile_concurrent_modification [OF torn_mtime(1) torn_mtime(3) torn_mtime(2) ne,
        of demo_hashlib False "world_of ''hello.txt'' torn_file" "''hello.txt''"]
    by (simp add: torn_mtime world_of_simps g zero_stats_def digest_attr_def stamp_attr_def)
qed

section \<open>When the attributes are written\<close>

lemma classified_verdict_normal:
  assumes "\<not> remove' (args w)" "\<not> gBOnlyFilename w"
  shows "classified w (checkFile H b fn w) v \<longleftrightarrow> v = spec_verdict H b fn w"
proof (cases "files w fn")
  case (Inr f)
  then show ?thesis using assms by (rule classified_spec_verdict)
next
  case (Inl e)
  have "classified w (checkFile H b fn w) OpenError"
    unfolding checkFile_open_error [OF Inl]
    by (cases "stats w") (simp add: classified_def counted_def)
  moreover have "spec_verdict H b fn w = OpenError"
    using Inl by (simp add: spec_verdict_def)
  ultimately show ?thesis using classified_inject by metis
qed

lemma store_invoked_normal:
  assumes "\<not> remove' (args w)" "\<not> gBOnlyFilename w"
  shows "store_invoked w (checkFile H b fn w) fn \<longleftrightarrow> persists (spec_verdict H b fn w)"
proof (cases "files w fn")
  case (Inr f)
  then show ?thesis using assms by (rule checkFile_normal_store_invoked)
next
  case (Inl e)
  then show ?thesis
    by (simp add: checkFile_open_error [OF Inl] store_invoked_def ops_during_def spec_verdict_def
          persists_def)
qed

lemma checkFile_compare_printed_store:
  assumes "persists (truth_table b stored actual)"
  shows "\<exists>pre. printed (checkFile_compare b fn f stored actual w) =
           pre @ (case store_error b f of Some e \<Rightarrow> [Stderr_Error e] | None \<Rightarrow> [])"
  using assms
  by (simp add: checkFile_compare_def truth_table_code persists_def checkFile_store_printed
        split: if_splits)

lemma checkFile_printed_store:
  assumes "files w fn = Inr f" "\<not> remove' (args w)" "\<not> gBOnlyFilename w"
    and "persists (spec_verdict H b fn w)"
  shows "\<exists>pre. printed (checkFile H b fn w) =
           pre @ (case store_error b f of Some e \<Rightarrow> [Stderr_Error e] | None \<Rightarrow> [])"
proof -
  obtain actual err where a: "fst (getActualAttr H b f) = (actual, err)"
    by (metis surj_pair)
  have e: "err = None"
    using assms(1,4) a by (cases err) (auto simp add: spec_verdict_def persists_def split: if_splits)
  have p: "persists (truth_table b (stored_of b f) actual)"
    using assms(1,4) a e by (simp add: spec_verdict_def persists_final_verdict)
  show ?thesis
    using checkFile_compare_printed_store [OF p, where fn = fn
        and f = "snd (getActualAttr H b (f\<lparr>oplog := oplog f @ [FGet (digest_attr b), FGet (stamp_attr b)]\<rparr>))"
        and w = "upd_stats (\<lambda>st. st\<lparr>total' := total' st + 1\<rparr>) w"]
    by (simp add: checkFile_normal [OF assms(1-3)] a e Let_def store_error_frame)
qed


lemma readonly_facts:
  "mtime_at readonly_file k = (\<lparr> s = 1560177334, ns = 20775051 \<rparr>, None)"
  "copy_result readonly_file = Inr ''hello''"
  "stored_of False readonly_file = zeroFileAttr\<lparr>sha256 := zeroSha256\<rparr>"
  "store_error False readonly_file = Some (Wrapped ''xattr.fset'' EACCES)"
  by (simp_all add: mtime_at_eq readonly_file_def plain_file_def stored_of_def getStoredAttr_def
        getStoredAttrSha256_eq read_attr_def zeroFileAttr_def store_error_def)

lemma actual_readonly_sha256:
  "fst (getActualAttr demo_hashlib False readonly_file) = (hello_sha256, None)"
  by (simp add: getActualAttr_success [OF readonly_facts(1) readonly_facts(2) readonly_facts(1)]
        demo_sha256 hello_sha256_def zeroFileAttr_def)

lemma spec_verdict_readonly:
  "spec_verdict demo_hashlib False ''hello.txt'' (world_of ''hello.txt'' readonly_file) = New"
proof -
  have "row False (zeroFileAttr\<lparr>sha256 := zeroSha256\<rparr>) hello_sha256 New"
    by (simp add: row_def hello_sha256_def stamp_of_def digest_of_def zero_digest_def
        zeroFileAttr_def zeroFileTimeStamp_def zeroSha256_def)
  then show ?thesis
    by (simp add: spec_verdict_def world_of_simps actual_readonly_sha256 readonly_facts
          final_verdict_def row_iff_truth_table)
qed

lemma spec_verdict_verifying:
  "spec_verdict demo_hashlib True ''notes.txt'' verifying_world = FilenameNotMatched"
  using row_tagged_ok
  by (simp add: spec_verdict_def verifying_world_simps actual_tagged_md5 final_verdict_def
        row_iff_truth_table notes_not_matched)

text \<open>
  Claim C3. In normal mode the check counts the file under exactly one verdict, and it
  calls the write of the attributes if and only if that verdict is Corrupt, TimeChanged,
  New or Outdated; it does not call it when the verdict is Ok, FilenameNotMatched,
  ConcurrentModification, or an error of reading or opening. When the write fails, the
  error is the last line printed (on the standard error) and the counter of failed
  attribute writes is incremented; every other counter is as the verdict decided.
\<close>

theorem checkFile_store_iff:
  assumes "\<not> remove' (args w)" "\<not> gBOnlyFilename w"
  shows "(classified w (checkFile H bMd5 fn w) v \<longleftrightarrow> v = spec_verdict H bMd5 fn w) \<and>
    (store_invoked w (checkFile H bMd5 fn w) fn \<longleftrightarrow>
       classified w (checkFile H bMd5 fn w) Corrupt \<or>
       classified w (checkFile H bMd5 fn w) TimeChanged \<or>
       classified w (checkFile H bMd5 fn w) New \<or>
       classified w (checkFile H bMd5 fn w) Outdated) \<and>
    (classified w (checkFile H bMd5 fn w) Ok \<or>
     classified w (checkFile H bMd5 fn w) FilenameNotMatched \<or>
     classified w (checkFile H bMd5 fn w) ConcurrentModification \<or>
     classified w (checkFile H bMd5 fn w) ReadError \<or>
     classified w (checkFile H bMd5 fn w) OpenError \<longrightarrow>
       \<not> store_invoked w (checkFile H bMd5 fn w) fn) \<and>
    (files w fn = Inr f \<longrightarrow>
       stats (checkFile H bMd5 fn w) =
         (counted (spec_verdict H bMd5 fn w) ((stats w)\<lparr>total' := total' (stats w) + 1\<rparr>))
           \<lparr>errorsWritingXattr := errorsWritingXattr (stats w) +
              (if store_invoked w (checkFile H bMd5 fn w) fn \<and> store_error bMd5 f \<noteq> None
               then 1 else 0)\<rparr> \<and>
       (store_invoked w (checkFile H bMd5 fn w) fn \<and> store_error bMd5 f = Some e \<longrightarrow>
          printed (checkFile H bMd5 fn w) \<noteq> [] \<and>
          last (printed (checkFile H bMd5 fn w)) = Stderr_Error e))"
proof -
  note c = classified_verdict_normal [OF assms, of H bMd5 fn]
  note s = store_invoked_normal [OF assms, of H bMd5 fn]
  have 1: "classified w (checkFile H bMd5 fn w) v \<longleftrightarrow> v = spec_verdict H bMd5 fn w"
    by (rule c)
  have 2: "store_invoked w (checkFile H bMd5 fn w) fn \<longleftrightarrow>
       classified w (checkFile H bMd5 fn w) Corrupt \<or>
       classified w (checkFile H bMd5 fn w) TimeChanged \<or>
       classified w (checkFile H bMd5 fn w) New \<or>
       classified w (checkFile H bMd5 fn w) Outdated"
    unfolding s c persists_def by auto
  have 3: "classified w (checkFile H bMd5 fn w) Ok \<or>
     classified w (checkFile H bMd5 fn w) FilenameNotMatched \<or>
     classified w (checkFile H bMd5 fn w) ConcurrentModification \<or>
     classified w (checkFile H bMd5 fn w) ReadError \<or>
     classified w (checkFile H bMd5 fn w) OpenError \<longrightarrow>
       \<not> store_invoked w (checkFile H bMd5 fn w) fn"
    unfolding s c persists_def by auto
  have 4: "stats (checkFile H bMd5 fn w) =
         (counted (spec_verdict H bMd5 fn w) ((stats w)\<lparr>total' := total' (stats w) + 1\<rparr>))
           \<lparr>errorsWritingXattr := errorsWritingXattr (stats w) +
              (if store_invoked w (checkFile H bMd5 fn w) fn \<and> store_error bMd5 f \<noteq> None
               then 1 else 0)\<rparr> \<and>
       (store_invoked w (checkFile H bMd5 fn w) fn \<and> store_error bMd5 f = Some e \<longrightarrow>
          printed (checkFile H bMd5 fn w) \<noteq> [] \<and>
          last (printed (checkFile H bMd5 fn w)) = Stderr_Error e)"
    if f: "files w fn = Inr f"
  proof -
    have st: "stats (checkFile H bMd5 fn w) =
         (counted (spec_verdict H bMd5 fn w) ((stats w)\<lparr>total' := total' (stats w) + 1\<rparr>))
           \<lparr>errorsWritingXattr := errorsWritingXattr (stats w) +
              (if store_invoked w (checkFile H bMd5 fn w) fn \<and> store_error bMd5 f \<noteq> None
               then 1 else 0)\<rparr>"
      unfolding s by (rule checkFile_normal_stats [OF f assms])
    have pr: "printed (checkFile H bMd5 fn w) \<noteq> [] \<and>
          last (printed (checkFile H bMd5 fn w)) = Stderr_Error e"
      if si: "store_invoked w (checkFile H bMd5 fn w) fn" and se: "store_error bMd5 f = Some e"
    proof -
      have "persists (spec_verdict H bMd5 fn w)" using si s by simp
      from checkFile_printed_store [OF f assms this]
      obtain pre where "printed (checkFile H bMd5 fn w) = pre @ [Stderr_Error e]"
        using se by auto
      then show ?thesis by simp
    qed
    show ?thesis using st pr by blast
  qed
  show ?thesis using 1 2 3 4 by blast
qed

theorem checkFile_store_iff_witness:
  "\<not> remove' (args (world_of ''hello.txt'' readonly_file)) \<and>
   \<not> gBOnlyFilename (world_of ''hello.txt'' readonly_file) \<and>
   files (world_of ''hello.txt'' readonly_file) ''hello.txt'' = Inr readonly_file \<and>
   store_error False readonly_file = Some (Wrapped ''xattr.fset'' EACCES) \<and>
   classified (world_of ''hello.txt'' readonly_file)
     (checkFile demo_hashlib False ''hello.txt'' (world_of ''hello.txt'' readonly_file)) New \<and>
   store_invoked (world_of ''hello.txt'' readonly_file)
     (checkFile demo_hashlib False ''hello.txt'' (world_of ''hello.txt'' readonly_file)) ''hello.txt'' \<and>
   stats (checkFile demo_hashlib False ''hello.txt'' (world_of ''hello.txt'' readonly_file)) =
     zero_stats\<lparr>total' := 1, newfile := 1, errorsWritingXattr := 1\<rparr> \<and>
   last (printed (checkFile demo_hashlib False ''hello.txt'' (world_of ''hello.txt'' readonly_file)))
     = Stderr_Error (Wrapped ''xattr.fset'' EACCES) \<and>
   \<not> remove' (args verifying_world) \<and> \<not> gBOnlyFilename verifying_world \<and>
   classified verifying_world (checkFile demo_hashlib True ''notes.txt'' verifying_world)
     FilenameNotMatched \<and>
   \<not> store_invoked verifying_world (checkFile demo_hashlib True ''notes.txt'' verifying_world)
     ''notes.txt''"
proof -
  note A = checkFile_store_iff [OF world_of_simps(2,3), where fn = "''hello.txt''"
      and f = readonly_file and H = demo_hashlib and ?bMd5.0 = False and v = New
      and e = "Wrapped ''xattr.fset'' EACCES"]
  note B = checkFile_store_iff [OF verifying_world_simps(2,3), where H = demo_hashlib
      and ?bMd5.0 = True and fn = "''notes.txt''" and v = FilenameNotMatched and f = tagged_file]
  have a1: "classified (world_of ''hello.txt'' readonly_file)
     (checkFile demo_hashlib False ''hello.txt'' (world_of ''hello.txt'' readonly_file)) New"
    using A by (simp add: spec_verdict_readonly)
  have a2: "store_invoked (world_of ''hello.txt'' readonly_file)
     (checkFile demo_hashlib False ''hello.txt'' (world_of ''hello.txt'' readonly_file)) ''hello.txt''"
    using A a1 by blast
  have a3: "stats (checkFile demo_hashlib False ''hello.txt'' (world_of ''hello.txt'' readonly_file)) =
     zero_stats\<lparr>total' := 1, newfile := 1, errorsWritingXattr := 1\<rparr>"
    using A a2
    by (simp add: world_of_simps readonly_facts spec_verdict_readonly counted_def zero_stats_def)
  have a4: "last (printed (checkFile demo_hashlib False ''hello.txt'' (world_of ''hello.txt'' readonly_file)))
     = Stderr_Error (Wrapped ''xattr.fset'' EACCES)"
    using A a2 by (simp add: world_of_simps readonly_facts)
  have b1: "classified verifying_world (checkFile demo_hashlib True ''notes.txt'' verifying_world)
     FilenameNotMatched"
    using B by (simp add: spec_verdict_verifying)
  have b2: "\<not> store_invoked verifying_world (checkFile demo_hashlib True ''notes.txt'' verifying_world)
     ''notes.txt''"
    using B b1 by blast
  show ?thesis
    using a1 a2 a3 a4 b1 b2 by (simp add: world_of_simps verifying_world_simps readonly_facts)
qed

section \<open>Reading the stored attributes never fails\<close>

text \<open>
  Claim C4, as amended. The read of the stored attributes returns no error. A digest
  attribute that is absent or cannot be read leaves the zero digest, a timestamp
  attribute that is absent or cannot be read leaves the zero timestamp. Of a timestamp
  attribute that is read, the seconds are the field before the first dot and the
  nanoseconds the field after it, 0 when there is no dot; a field that is empty or holds
  a byte that is not a decimal digit counts as 0, but a field whose leading digits
  exceed the range of the number counts as the largest number of that range
  (\<open>2 ^ 64 - 1\<close> seconds, \<open>2 ^ 32 - 1\<close> nanoseconds), not as 0.
\<close>

theorem getStoredAttr_never_fails:
  "snd (fst (getStoredAttr bMd5 f)) = None \<and>
   (read_attr f (digest_attr bMd5) = None \<longrightarrow>
      digest_of bMd5 (stored_of bMd5 f) = zero_digest bMd5) \<and>
   (read_attr f (stamp_attr bMd5) = None \<longrightarrow>
      stamp_of bMd5 (stored_of bMd5 f) = zeroFileTimeStamp) \<and>
   (read_attr f (stamp_attr bMd5) = Some v \<longrightarrow>
      s (stamp_of bMd5 (stored_of bMd5 f)) =
        of_nat (field_value 64 (takeWhile (\<lambda>c. c \<noteq> CHR ''.'') v)) \<and>
      ns (stamp_of bMd5 (stored_of bMd5 f)) =
        (if CHR ''.'' \<in> set v
         then of_nat (field_value 32 (tl (dropWhile (\<lambda>c. c \<noteq> CHR ''.'') v)))
         else 0))"
  by (cases bMd5)
    (simp_all add: getStoredAttr_def getStoredAttrSha256_eq getStoredAttrMd5_eq stored_of_def
       digest_of_def stamp_of_def zero_digest_def digest_attr_def stamp_attr_def parse_ts_eq
       zeroFileTimeStamp_def)

theorem getStoredAttr_never_fails_witness:
  "read_attr plain_file (digest_attr False) = None \<and>
   read_attr plain_file (stamp_attr False) = None \<and>
   digest_of False (stored_of False plain_file) = zeroSha256 \<and>
   stamp_of False (stored_of False plain_file) = zeroFileTimeStamp \<and>
   snd (fst (getStoredAttr False plain_file)) = None \<and>
   read_attr malformed_file (stamp_attr False) = Some ''15x'' \<and>
   s (stamp_of False (stored_of False malformed_file)) = 0 \<and>
   ns (stamp_of False (stored_of False malformed_file)) = 0"
proof -
  have a: "read_attr plain_file (digest_attr False) = None"
    "read_attr plain_file (stamp_attr False) = None"
    by (simp_all add: read_attr_def plain_file_def)
  have b: "read_attr malformed_file (stamp_attr False) = Some ''15x''"
    by (simp add: read_attr_def malformed_file_def plain_file_def stamp_attr_def)
  have c: "field_value 64 ''15x'' = 0"
    by (simp add: field_value_def digits_value_def digit_step_def is_digit_def)
  show ?thesis
    using getStoredAttr_never_fails [of False plain_file]
      getStoredAttr_never_fails [of False malformed_file "''15x''"] a b c
    by (simp add: zero_digest_def)
qed

text \<open>
  The claim as it was written has every field that cannot be parsed count as 0. A field
  of twenty nines is refused by \<open>ParseUint\<close> with a range error, and the seconds
  read are the largest 64-bit number; likewise for the nanoseconds.
\<close>

theorem getStoredAttr_range_error_not_zero:
  "read_attr overflow_file xattrTsSha256 = Some ''99999999999999999999.5000000000'' \<and>
   ParseUint ''99999999999999999999'' 64 = (18446744073709551615, Some ErrRange) \<and>
   ParseUint ''5000000000'' 32 = (4294967295, Some ErrRange) \<and>
   ts (fst (fst (getStoredAttr False overflow_file))) = \<lparr> s = 18446744073709551615, ns = 4294967295 \<rparr> \<and>
   s (ts (fst (fst (getStoredAttr False overflow_file)))) \<noteq> 0 \<and>
   ns (ts (fst (fst (getStoredAttr False overflow_file)))) \<noteq> 0"
proof -
  have a: "read_attr overflow_file xattrTsSha256 = Some ''99999999999999999999.5000000000''"
    by (simp add: read_attr_def overflow_file_def plain_file_def)
  have b: "ParseUint ''99999999999999999999'' 64 = (18446744073709551615, Some ErrRange)"
    by (simp add: ParseUint_def is_digit_def cutoff10_def maxUint64_def Let_def)
  have c: "ParseUint ''5000000000'' 32 = (4294967295, Some ErrRange)"
    by (simp add: ParseUint_def is_digit_def cutoff10_def maxUint64_def Let_def)
  have d: "parse_ts zeroFileTimeStamp ''99999999999999999999.5000000000''
             = \<lparr> s = 18446744073709551615, ns = 4294967295 \<rparr>"
    by (simp add: parse_ts_def b c zeroFileTimeStamp_def)
  show ?thesis
    by (simp add: a b c d getStoredAttr_def getStoredAttrSha256_eq)
qed

section \<open>Round trip of the timestamp text\<close>

text \<open>
  Claim C5. For every timestamp, the zero timestamp included, the text that
  \<open>prettyPrint\<close> writes (seconds padded to ten digits, a dot, nanoseconds padded to
  nine) is read back as the same timestamp by the code that parses the stored timestamp
  attribute, under both algorithms.
\<close>

theorem timestamp_roundtrip:
  "parse_ts t0 (prettyPrint_ts t) = t \<and>
   (read_attr f xattrTsSha256 = Some (prettyPrint_ts t) \<longrightarrow>
      ts (fst (fst (getStoredAttrSha256 f))) = t) \<and>
   (read_attr f xattrTsMd5 = Some (prettyPrint_ts t') \<longrightarrow>
      tsMd5 (fst (fst (getStoredAttrMd5 f))) = t')"
  by (simp add: parse_ts_prettyPrint getStoredAttrSha256_eq getStoredAttrMd5_eq)

theorem timestamp_roundtrip_witness:
  "prettyPrint_ts \<lparr> s = 1560177334, ns = 20775051 \<rparr> = ''1560177334.020775051'' \<and>
   prettyPrint_ts \<lparr> s = 0, ns = 0 \<rparr> = ''0000000000.000000000'' \<and>
   read_attr stamped_file xattrTsSha256 = Some ''1560177334.020775051'' \<and>
   read_attr stamped_file xattrTsMd5 = Some ''0000000000.000000000'' \<and>
   ts (fst (fst (getStoredAttrSha256 stamped_file))) = \<lparr> s = 1560177334, ns = 20775051 \<rparr> \<and>
   tsMd5 (fst (fst (getStoredAttrMd5 stamped_file))) = \<lparr> s = 0, ns = 0 \<rparr>"
proof -
  have a: "prettyPrint_ts \<lparr> s = 1560177334, ns = 20775051 \<rparr> = ''1560177334.020775051''"
    by (simp add: prettyPrint_ts_def sprintf_0d_def decimal.simps digit_char_eval)
  have b: "prettyPrint_ts \<lparr> s = 0, ns = 0 \<rparr> = ''0000000000.000000000''"
    by (simp add: prettyPrint_ts_def sprintf_0d_def decimal.simps digit_char_eval eval_nat_numeral)
  have c: "read_attr stamped_file xattrTsSha256 = Some ''1560177334.020775051''"
    by (simp add: read_attr_def stamped_file_def plain_file_def xattrTsSha256_def xattrTsMd5_def)
  have d: "read_attr stamped_file xattrTsMd5 = Some ''0000000000.000000000''"
    by (simp add: read_attr_def stamped_file_def plain_file_def xattrTsSha256_def xattrTsMd5_def)
  show ?thesis
    using timestamp_roundtrip [of _ "\<lparr> s = 1560177334, ns = 20775051 \<rparr>" stamped_file "\<lparr> s = 0, ns = 0 \<rparr>"]
      a b c d
    by simp
qed

section \<open>The checksum taken from a file name\<close>

text \<open>
  Claim C6, as amended. Called as \<open>checkFilename\<close> calls it in MD5 mode (length 32),
  the extractor returns the first 32 characters of the first maximal run of at least 32
  hexadecimal digits of the name, and the empty text when the name has no such run; on
  \<open>IMG_d41d8cd98f00b204e9800998ecf8427e.jpg\<close> it returns
  \<open>d41d8cd98f00b204e9800998ecf8427e\<close>. Called as in SHA-256 mode (length 0), it
  returns the first hexadecimal digit of the name alone, and the empty text when the
  name has none.
\<close>

theorem extractChecksumFromFilename_result:
  "extractChecksumFromFilename True fn 32 = head_of_first_long_run 32 fn \<and>
   extractChecksumFromFilename True ''IMG_d41d8cd98f00b204e9800998ecf8427e.jpg'' 32
     = ''d41d8cd98f00b204e9800998ecf8427e'' \<and>
   extractChecksumFromFilename False fn 0 = take 1 (filter is_hex fn)"
proof -
  have "extractChecksumFromFilename True ''IMG_d41d8cd98f00b204e9800998ecf8427e.jpg'' 32
          = ''d41d8cd98f00b204e9800998ecf8427e''"
    by (simp add: extractChecksumFromFilename_def is_hex_def)
  then show ?thesis
    by (simp add: extractChecksumFromFilename_def FindString_hex32_runs FindString_hex1_filter)
qed

text \<open>
  The claim as it was written has the extractor return the first maximal run of exactly
  32 hexadecimal digits. A name that begins with the 64 digits of a SHA-256 digest has
  one maximal run, of 64 digits, and none of exactly 32; the extractor returns the first
  32 digits of that run, not the empty text.
\<close>

theorem extractChecksumFromFilename_cuts_longer_run:
  "hex_runs ''e3b0c44298fc1c149afbf4c8996fb92427ae41e4649b934ca495991b7852b855.jpg''
     = [''e3b0c44298fc1c149afbf4c8996fb92427ae41e4649b934ca495991b7852b855''] \<and>
   first_run_of_exactly 32 ''e3b0c44298fc1c149afbf4c8996fb92427ae41e4649b934ca495991b7852b855.jpg''
     = [] \<and>
   extractChecksumFromFilename True
       ''e3b0c44298fc1c149afbf4c8996fb92427ae41e4649b934ca495991b7852b855.jpg'' 32
     = ''e3b0c44298fc1c149afbf4c8996fb924'' \<and>
   extractChecksumFromFilename True
       ''e3b0c44298fc1c149afbf4c8996fb92427ae41e4649b934ca495991b7852b855.jpg'' 32
     \<noteq> first_run_of_exactly 32
         ''e3b0c44298fc1c149afbf4c8996fb92427ae41e4649b934ca495991b7852b855.jpg''"
proof -
  have a: "hex_runs ''e3b0c44298fc1c149afbf4c8996fb92427ae41e4649b934ca495991b7852b855.jpg''
             = [''e3b0c44298fc1c149afbf4c8996fb92427ae41e4649b934ca495991b7852b855'']"
    by (simp add: is_hex_def)
  have b: "extractChecksumFromFilename True
             ''e3b0c44298fc1c149afbf4c8996fb92427ae41e4649b934ca495991b7852b855.jpg'' 32
           = ''e3b0c44298fc1c149afbf4c8996fb924''"
    by (simp add: extractChecksumFromFilename_def is_hex_def)
  show ?thesis
    unfolding first_run_of_exactly_def a b by simp
qed

section \<open>The check that trusts the file name\<close>

lemma checkFilename_eq:
  "checkFilename b path a \<longleftrightarrow>
     extractChecksumFromFilename b (filepath_Base path) (if b then 32 else 0) = digest_of b a"
  by (simp add: checkFilename_def digest_of_def Let_def)

lemma filename_only_world_simps:
  "files filename_only_world ''IMG_5d41402abc4b2a76b9719d911017c592.jpg'' = Inr tagged_file"
  "\<not> remove' (args filename_only_world)" "gBOnlyFilename filename_only_world"
  "stats filename_only_world = zero_stats" "printed filename_only_world = []"
  "\<not> q (args filename_only_world)"
  by (simp_all add: filename_only_world_def world_of_def)

lemma extract_img:
  "extractChecksumFromFilename True (filepath_Base ''IMG_5d41402abc4b2a76b9719d911017c592.jpg'') 32
     = ''5d41402abc4b2a76b9719d911017c592''"
  by (simp add: filepath_Base_def extractChecksumFromFilename_def is_hex_def)

lemma checkFile_filename_only_eq:
  assumes "files w fn = Inr f" "\<not> remove' (args w)" "gBOnlyFilename w"
  shows "checkFile H b fn w =
      w\<lparr>stats := (stats w)\<lparr>total' := total' (stats w) + 1\<rparr>,
        files := (files w)(fn := Inr (f\<lparr>oplog := oplog f @
                   [FGet (digest_attr b), FGet (stamp_attr b)]\<rparr>)),
        printed := printed w @
          (if extractChecksumFromFilename b (filepath_Base fn) (if b then 32 else 0)
                = digest_of b (stored_of b f)
           then (if \<not> q (args w) then [Stdout (''<ok> '' @ fn @ newline)] else [])
           else (if \<not> qq (args w)
                 then [Stdout (''<filename '' @ fn @ '' does not match md5 '' @
                               md5 (stored_of b f) @ ''> '' @ fn @ newline)]
                 else []))\<rparr>"
  using assms
  by (simp add: checkFile_def getStoredAttr_eq checkFilename_eq upd_stats_def close_file_def
        Printf_def Let_def)

lemma checkFile_filename_only_ops:
  assumes "files w fn = Inr f" "\<not> remove' (args w)" "gBOnlyFilename w"
  shows "ops_during w (checkFile H b fn w) fn = [FGet (digest_attr b), FGet (stamp_attr b)]"
  unfolding checkFile_filename_only_eq [OF assms] using assms(1)
  by (simp add: ops_during_def)

text \<open>
  Claim C7. With the file-name-only switch set (and remove mode off), the check compares
  the checksum taken from the file name, byte for byte, with the stored digest of the
  selected algorithm; it reads the two stored attributes and makes no other call on the
  file: the content is not streamed, the modification time is not read and no attribute
  is written, whether the comparison matches or not. Only the total is counted.
\<close>

theorem checkFile_filename_only:
  assumes "files w fn = Inr f" "\<not> remove' (args w)" "gBOnlyFilename w"
  shows "checkFile H bMd5 fn w =
      w\<lparr>stats := (stats w)\<lparr>total' := total' (stats w) + 1\<rparr>,
        files := (files w)(fn := Inr (f\<lparr>oplog := oplog f @
                   [FGet (digest_attr bMd5), FGet (stamp_attr bMd5)]\<rparr>)),
        printed := printed w @
          (if extractChecksumFromFilename bMd5 (filepath_Base fn) (if bMd5 then 32 else 0)
                = digest_of bMd5 (stored_of bMd5 f)
           then (if \<not> q (args w) then [Stdout (''<ok> '' @ fn @ newline)] else [])
           else (if \<not> qq (args w)
                 then [Stdout (''<filename '' @ fn @ '' does not match md5 '' @
                               md5 (stored_of bMd5 f) @ ''> '' @ fn @ newline)]
                 else []))\<rparr> \<and>
    ops_during w (checkFile H bMd5 fn w) fn = [FGet (digest_attr bMd5), FGet (stamp_attr bMd5)] \<and>
    \<not> list_ex is_write (ops_during w (checkFile H bMd5 fn w) fn) \<and>
    xattrs_at (checkFile H bMd5 fn w) fn = xattrs_at w fn"
proof -
  note eq = checkFile_filename_only_eq [OF assms, where H = H and b = bMd5]
  show ?thesis
    unfolding eq using assms(1)
    by (simp add: ops_during_def xattrs_at_def is_write_def)
qed

theorem checkFile_filename_only_witness:
  "files filename_only_world ''IMG_5d41402abc4b2a76b9719d911017c592.jpg'' = Inr tagged_file \<and>
   \<not> remove' (args filename_only_world) \<and> gBOnlyFilename filename_only_world \<and>
   stats (checkFile demo_hashlib True ''IMG_5d41402abc4b2a76b9719d911017c592.jpg'' filename_only_world)
     = zero_stats\<lparr>total' := 1\<rparr> \<and>
   printed (checkFile demo_hashlib True ''IMG_5d41402abc4b2a76b9719d911017c592.jpg'' filename_only_world)
     = [Stdout (''<ok> IMG_5d41402abc4b2a76b9719d911017c592.jpg'' @ newline)] \<and>
   ops_during filename_only_world
     (checkFile demo_hashlib True ''IMG_5d41402abc4b2a76b9719d911017c592.jpg'' filename_only_world)
     ''IMG_5d41402abc4b2a76b9719d911017c592.jpg'' = [FGet xattrMd5, FGet xattrTsMd5]"
proof -
  note A = checkFile_filename_only [OF filename_only_world_simps(1-3), where H = demo_hashlib
      and ?bMd5.0 = True]
  have d: "digest_of True (stored_of True tagged_file) = ''5d41402abc4b2a76b9719d911017c592''"
    by (simp add: stored_tagged digest_of_def hello_md5_def)
  have eq: "checkFile demo_hashlib True ''IMG_5d41402abc4b2a76b9719d911017c592.jpg'' filename_only_world =
     filename_only_world\<lparr>stats := zero_stats\<lparr>total' := 1\<rparr>,
       files := (files filename_only_world)(''IMG_5d41402abc4b2a76b9719d911017c592.jpg'' :=
          Inr (tagged_file\<lparr>oplog := oplog tagged_file @ [FGet xattrMd5, FGet xattrTsMd5]\<rparr>)),
       printed := [Stdout (''<ok> IMG_5d41402abc4b2a76b9719d911017c592.jpg'' @ newline)]\<rparr>"
    using A [THEN conjunct1]
    by (simp add: extract_img d filename_only_world_simps zero_stats_def digest_attr_def stamp_attr_def)
  have ops: "ops_during filename_only_world
     (checkFile demo_hashlib True ''IMG_5d41402abc4b2a76b9719d911017c592.jpg'' filename_only_world)
     ''IMG_5d41402abc4b2a76b9719d911017c592.jpg'' = [FGet xattrMd5, FGet xattrTsMd5]"
    using A [THEN conjunct2, THEN conjunct1] by (simp only: digest_attr_def stamp_attr_def if_True)
  show ?thesis
    unfolding ops by (simp add: eq filename_only_world_simps)
qed

section \<open>A file name that does not match\<close>

lemma truth_table_Ok_iff:
  "truth_table b stored actual = Ok \<longleftrightarrow> timesMatch b stored actual \<and> checksumsMatch b stored actual"
  by (simp add: truth_table_code)

lemma checkFile_fnm_printed:
  assumes "files w fn = Inr f" "\<not> remove' (args w)" "\<not> gBOnlyFilename w"
    and "fst (getActualAttr H b f) = (actual, None)"
    and "timesMatch b (stored_of b f) actual" "checksumsMatch b (stored_of b f) actual"
    and "gBCheckFilename w" "\<not> checkFilename b fn actual"
  shows "printed (checkFile H b fn w) =
     printed w @
     (if \<not> q (args w)
      then [Stdout (''<filename not matched> '' @ fn @ newline),
            Stdout ('' stored: '' @ prettyPrint (stored_of b f) @ newline @
                    '' actual: '' @ prettyPrint actual @ newline)]
      else [])"
proof -
  have tt: "truth_table b (stored_of b f) actual = Ok"
    using assms(5,6) by (simp add: truth_table_Ok_iff)
  show ?thesis
    using assms(4,7,8)
    by (simp add: checkFile_normal [OF assms(1-3)] Let_def upd_stats_def
          checkFile_compare_printed_fnm [OF tt])
qed

lemma spec_verdict_fnm:
  assumes "files w fn = Inr f"
    and "fst (getActualAttr H b f) = (actual, None)"
    and "timesMatch b (stored_of b f) actual" "checksumsMatch b (stored_of b f) actual"
    and "gBCheckFilename w" "\<not> checkFilename b fn actual"
  shows "spec_verdict H b fn w = FilenameNotMatched"
  using assms by (simp add: spec_verdict_def final_verdict_def truth_table_Ok_iff)

lemma quiet_verifying_world_simps:
  "files quiet_verifying_world ''notes.txt'' = Inr tagged_file" "\<not> remove' (args quiet_verifying_world)"
  "\<not> gBOnlyFilename quiet_verifying_world" "gBCheckFilename quiet_verifying_world"
  "stats quiet_verifying_world = zero_stats" "printed quiet_verifying_world = []"
  "q (args quiet_verifying_world)"
  by (simp_all add: quiet_verifying_world_def verifying_world_def world_of_def)

lemma tagged_matches:
  "timesMatch True (stored_of True tagged_file) hello_md5"
  "checksumsMatch True (stored_of True tagged_file) hello_md5"
  by (simp_all add: stored_tagged timesMatch_def checksumsMatch_def)

text \<open>
  Claim C8, as amended. In normal mode, when the stored and the actual timestamps match,
  the stored and the actual digests match, the file name is to be verified and the
  checksum taken from the name is not the actual digest, the verdict is
  FilenameNotMatched instead of Ok: the counter of the files that are ok is not
  incremented (no counter but the total is), no attribute is written, and the verdict is
  printed with the comparison of the attributes unless the switch \<open>q\<close> is set.
\<close>

theorem checkFile_filename_not_matched:
  assumes "files w fn = Inr f" "\<not> remove' (args w)" "\<not> gBOnlyFilename w"
    and "fst (getActualAttr H bMd5 f) = (actual, None)"
    and "timesMatch bMd5 (stored_of bMd5 f) actual" "checksumsMatch bMd5 (stored_of bMd5 f) actual"
    and "gBCheckFilename w" "\<not> checkFilename bMd5 fn actual"
  shows "classified w (checkFile H bMd5 fn w) FilenameNotMatched \<and>
    printed (checkFile H bMd5 fn w) =
      printed w @
      (if \<not> q (args w)
       then [Stdout (''<filename not matched> '' @ fn @ newline),
             Stdout ('' stored: '' @ prettyPrint (stored_of bMd5 f) @ newline @
                     '' actual: '' @ prettyPrint actual @ newline)]
       else []) \<and>
    stats (checkFile H bMd5 fn w) = (stats w)\<lparr>total' := total' (stats w) + 1\<rparr> \<and>
    ok (stats (checkFile H bMd5 fn w)) = ok (stats w) \<and>
    \<not> store_invoked w (checkFile H bMd5 fn w) fn \<and>
    \<not> list_ex is_write (ops_during w (checkFile H bMd5 fn w) fn) \<and>
    xattrs_at (checkFile H bMd5 fn w) fn = xattrs_at w fn"
proof -
  have v: "spec_verdict H bMd5 fn w = FilenameNotMatched"
    using assms(1,4-8) by (rule spec_verdict_fnm)
  have np: "\<not> persists (spec_verdict H bMd5 fn w)" by (simp add: v persists_def)
  have st: "stats (checkFile H bMd5 fn w) = (stats w)\<lparr>total' := total' (stats w) + 1\<rparr>"
    by (cases "stats w") (simp add: checkFile_normal_stats [OF assms(1-3)] v counted_def persists_def)
  show ?thesis
    using checkFile_normal_no_write [OF assms(1-3) np]
    by (simp add: classified_spec_verdict [OF assms(1-3)] v checkFile_fnm_printed [OF assms] st
          checkFile_normal_store_invoked [OF assms(1-3)] persists_def)
qed

theorem checkFile_filename_not_matched_witness:
  "files verifying_world ''notes.txt'' = Inr tagged_file \<and>
   \<not> remove' (args verifying_world) \<and> \<not> gBOnlyFilename verifying_world \<and>
   fst (getActualAttr demo_hashlib True tagged_file) = (hello_md5, None) \<and>
   timesMatch True (stored_of True tagged_file) hello_md5 \<and>
   checksumsMatch True (stored_of True tagged_file) hello_md5 \<and>
   gBCheckFilename verifying_world \<and> \<not> checkFilename True ''notes.txt'' hello_md5 \<and>
   printed (checkFile demo_hashlib True ''notes.txt'' verifying_world) =
     [Stdout (''<filename not matched> notes.txt'' @ newline),
      Stdout ('' stored: '' @ prettyPrint hello_md5 @ newline @
              '' actual: '' @ prettyPrint hello_md5 @ newline)] \<and>
   ok (stats (checkFile demo_hashlib True ''notes.txt'' verifying_world)) = 0 \<and>
   \<not> store_invoked verifying_world (checkFile demo_hashlib True ''notes.txt'' verifying_world) ''notes.txt''"
  using checkFile_filename_not_matched [OF verifying_world_simps(1-3) actual_tagged_md5
      tagged_matches verifying_world_simps(4) notes_not_matched]
  by (simp add: verifying_world_simps actual_tagged_md5 notes_not_matched
        stored_tagged zero_stats_def timesMatch_def checksumsMatch_def)

text \<open>
  The claim as it was written has the verdict reported in every such check. With the
  switch \<open>q\<close> set the check prints nothing.
\<close>

theorem checkFile_quiet_not_reported:
  "files quiet_verifying_world ''notes.txt'' = Inr tagged_file \<and>
   \<not> remove' (args quiet_verifying_world) \<and> \<not> gBOnlyFilename quiet_verifying_world \<and>
   fst (getActualAttr demo_hashlib True tagged_file) = (hello_md5, None) \<and>
   timesMatch True (stored_of True tagged_file) hello_md5 \<and>
   checksumsMatch True (stored_of True tagged_file) hello_md5 \<and>
   gBCheckFilename quiet_verifying_world \<and> \<not> checkFilename True ''notes.txt'' hello_md5 \<and>
   printed quiet_verifying_world = [] \<and>
   printed (checkFile demo_hashlib True ''notes.txt'' quiet_verifying_world) = []"
  by (simp add: quiet_verifying_world_simps actual_tagged_md5 tagged_matches notes_not_matched
        checkFile_fnm_printed [OF quiet_verifying_world_simps(1-3) actual_tagged_md5
          tagged_matches quiet_verifying_world_simps(4) notes_not_matched])

section \<open>The attributes of the other algorithm\<close>

lemma own_not_other:
  "digest_attr b \<notin> other_attrs b" "stamp_attr b \<notin> other_attrs b"
  by (simp_all add: digest_attr_def stamp_attr_def other_attrs_def xattrSha256_def xattrTsSha256_def
        xattrMd5_def xattrTsMd5_def)

lemma differ_stored_of:
  assumes "differ_only_in (other_attrs b) f g"
  shows "stored_of b f = stored_of b g"
proof -
  have "read_attr f (digest_attr b) = read_attr g (digest_attr b)"
    "read_attr f (stamp_attr b) = read_attr g (stamp_attr b)"
    using assms own_not_other [of b] by (simp_all add: differ_only_in_def read_attr_def)
  then show ?thesis
    by (cases b)
      (simp_all add: stored_of_def getStoredAttr_def getStoredAttrSha256_eq getStoredAttrMd5_eq
         digest_attr_def stamp_attr_def)
qed

lemma differ_as_update:
  assumes "differ_only_in N f g"
  shows "g = f\<lparr>xattrs := xattrs g\<rparr>"
  using assms by (cases f, cases g) (simp add: differ_only_in_def)

lemma getActualAttr_xattrs_upd:
  "getActualAttr H b (f\<lparr>xattrs := x\<rparr>) =
     (fst (getActualAttr H b f), (snd (getActualAttr H b f))\<lparr>xattrs := x\<rparr>)"
  by (simp add: getActualAttr_def getActualAttrMd5_def getActualAttrSha256_def getMtime_eq io_Copy_def
        mtime_at_eq Let_def split: prod.splits sum.splits option.splits)

lemma differ_getActualAttr:
  assumes "differ_only_in N f g"
  shows "fst (getActualAttr H b f) = fst (getActualAttr H b g)"
    and "differ_only_in N (snd (getActualAttr H b f)) (snd (getActualAttr H b g))"
proof -
  have g: "getActualAttr H b g =
     (fst (getActualAttr H b f), (snd (getActualAttr H b f))\<lparr>xattrs := xattrs g\<rparr>)"
    using differ_as_update [OF assms] getActualAttr_xattrs_upd [where H = H and b = b and f = f and x = "xattrs g"] by simp
  show "fst (getActualAttr H b f) = fst (getActualAttr H b g)" by (simp add: g)
  show "differ_only_in N (snd (getActualAttr H b f)) (snd (getActualAttr H b g))"
    using assms by (simp add: g differ_only_in_def getActualAttr_frame)
qed

lemma differ_oplog_upd:
  "differ_only_in N f g \<Longrightarrow> differ_only_in N (f\<lparr>oplog := oplog f @ l\<rparr>) (g\<lparr>oplog := oplog g @ l\<rparr>)"
  by (simp add: differ_only_in_def)

lemma differ_storeAttr:
  assumes "differ_only_in (other_attrs b) f g"
  shows "fst (storeAttr b f a) = fst (storeAttr b g a)"
    and "differ_only_in (other_attrs b) (snd (storeAttr b f a)) (snd (storeAttr b g a))"
  using assms
  by (auto simp add: storeAttr_eq store_error_def differ_only_in_def split: option.splits)

lemma differ_store_error:
  "differ_only_in N f g \<Longrightarrow> store_error b f = store_error b g"
  by (simp add: store_error_def differ_only_in_def split: option.splits)

lemma same_run_close_file:
  "same_run_but N w1 w2 \<Longrightarrow> differ_only_in N f g \<Longrightarrow>
     same_run_but N (close_file fn f w1) (close_file fn g w2)"
  by (simp add: same_run_but_def close_file_def open_differ_only_in_def)

lemma same_run_Printf:
  "same_run_but N w1 w2 \<Longrightarrow> same_run_but N (Printf l w1) (Printf l w2)"
  by (simp add: same_run_but_def Printf_def)

lemma same_run_Eprintf:
  "same_run_but N w1 w2 \<Longrightarrow> same_run_but N (Eprintf l w1) (Eprintf l w2)"
  by (simp add: same_run_but_def Eprintf_def)

lemma same_run_upd_stats:
  "same_run_but N w1 w2 \<Longrightarrow> same_run_but N (upd_stats u w1) (upd_stats u w2)"
  by (simp add: same_run_but_def upd_stats_def)

lemma same_run_printComparison:
  "same_run_but N w1 w2 \<Longrightarrow> same_run_but N (printComparison st ac w1) (printComparison st ac w2)"
  by (simp add: printComparison_def same_run_Printf)

lemma same_run_flags:
  assumes "same_run_but N w1 w2"
  shows "args w1 = args w2" "gBOnlyFilename w1 = gBOnlyFilename w2"
    "gBCheckFilename w1 = gBCheckFilename w2" "stats w1 = stats w2" "printed w1 = printed w2"
  using assms by (simp_all add: same_run_but_def)

lemmas same_run_intros =
  same_run_close_file same_run_Printf same_run_Eprintf same_run_upd_stats same_run_printComparison

lemma same_run_checkFile_store:
  assumes "same_run_but (other_attrs b) w1 w2" "differ_only_in (other_attrs b) f g"
  shows "same_run_but (other_attrs b)
           (checkFile_store b fn f st ac w1) (checkFile_store b fn g st ac w2)"
proof -
  obtain e f' where sf: "storeAttr b f ac = (e, f')" by (metis surj_pair)
  obtain e' g' where sg: "storeAttr b g ac = (e', g')" by (metis surj_pair)
  have ee: "e' = e" and fg: "differ_only_in (other_attrs b) f' g'"
    using differ_storeAttr [OF assms(2), of ac] sf sg by simp_all
  show ?thesis
    using assms(1) fg same_run_flags(1) [OF assms(1)]
    by (cases e) (simp_all add: checkFile_store_def sf sg ee same_run_intros)
qed

lemma same_run_checkFile_compare:
  assumes "same_run_but (other_attrs b) w1 w2" "differ_only_in (other_attrs b) f g"
  shows "same_run_but (other_attrs b)
           (checkFile_compare b fn f st ac w1) (checkFile_compare b fn g st ac w2)"
  using assms same_run_flags(1,3) [OF assms(1)]
  by (simp add: checkFile_compare_def same_run_intros same_run_checkFile_store)

lemma getActualAttr_touches:
  "\<exists>ops. oplog (snd (getActualAttr H b f)) = oplog f @ ops \<and> touches_only M ops"
  by (simp add: getActualAttr_def getActualAttrMd5_def getActualAttrSha256_def getMtime_eq io_Copy_def
        Let_def touches_only_def split: prod.splits sum.splits option.splits)

lemma touches_only_append [simp]:
  "touches_only M (xs @ ys) \<longleftrightarrow> touches_only M xs \<and> touches_only M ys"
  by (simp add: touches_only_def)

lemma checkFile_touches_only:
  assumes "\<not> remove' (args w)"
  shows "touches_only {digest_attr b, stamp_attr b} (ops_during w (checkFile H b fn w) fn)"
proof (cases "files w fn")
  case (Inl e)
  then show ?thesis
    by (simp add: checkFile_open_error [OF Inl] ops_during_def touches_only_def)
next
  case (Inr f)
  show ?thesis
  proof (cases "gBOnlyFilename w")
    case True
    have "ops_during w (checkFile H b fn w) fn = [FGet (digest_attr b), FGet (stamp_attr b)]"
      using Inr assms True by (rule checkFile_filename_only_ops)
    then show ?thesis by (simp add: touches_only_def)
  next
    case False
    let ?f1 = "f\<lparr>oplog := oplog f @ [FGet (digest_attr b), FGet (stamp_attr b)]\<rparr>"
    obtain hops where h: "oplog (snd (getActualAttr H b ?f1)) = oplog ?f1 @ hops"
        "touches_only {digest_attr b, stamp_attr b} hops"
      using getActualAttr_touches [where H = H and b = b and f = ?f1 and M = "{digest_attr b, stamp_attr b}"] by blast
    have "\<exists>sops. ops_during w (checkFile H b fn w) fn =
            [FGet (digest_attr b), FGet (stamp_attr b)] @ hops @ sops \<and>
            touches_only {digest_attr b, stamp_attr b} sops"
      using Inr h(1)
      by (simp add: ops_during_def checkFile_normal_files [OF Inr assms False] storeAttr_eq
            getActualAttr_frame Let_def touches_only_def split: option.splits)
    then show ?thesis using h(2) by (auto simp add: touches_only_def)
  qed
qed

lemma same_run_checkFile:
  assumes rel: "same_run_but (other_attrs b) w1 w2" and nr: "\<not> remove' (args w1)"
  shows "same_run_but (other_attrs b) (checkFile H b fn w1) (checkFile H b fn w2)"
proof -
  note fl = same_run_flags [OF rel]
  have nr2: "\<not> remove' (args w2)" using nr fl(1) by simp
  have o: "open_differ_only_in (other_attrs b) (files w1 fn) (files w2 fn)"
    using rel by (simp add: same_run_but_def)
  show ?thesis
  proof (cases "files w1 fn")
    case (Inl e)
    then have Inl2: "files w2 fn = Inl e"
      using o by (cases "files w2 fn") (simp_all add: open_differ_only_in_def)
    show ?thesis
      using rel
      by (simp add: checkFile_open_error [OF Inl] checkFile_open_error [OF Inl2] same_run_but_def)
  next
    case (Inr f)
    then obtain g where Inr2: "files w2 fn = Inr g" and fg: "differ_only_in (other_attrs b) f g"
      using o by (cases "files w2 fn") (simp_all add: open_differ_only_in_def)
    have st: "stored_of b g = stored_of b f" using differ_stored_of [OF fg] by simp
    let ?l = "[FGet (digest_attr b), FGet (stamp_attr b)]"
    have fg1: "differ_only_in (other_attrs b) (f\<lparr>oplog := oplog f @ ?l\<rparr>) (g\<lparr>oplog := oplog g @ ?l\<rparr>)"
      using fg by (rule differ_oplog_upd)
    show ?thesis
    proof (cases "gBOnlyFilename w1")
      case True
      then have True2: "gBOnlyFilename w2" using fl(2) by simp
      show ?thesis
        using rel fg1
        by (simp add: checkFile_filename_only_eq [OF Inr nr True]
              checkFile_filename_only_eq [OF Inr2 nr2 True2] st
              same_run_but_def open_differ_only_in_def)
    next
      case False
      then have False2: "\<not> gBOnlyFilename w2" using fl(2) by simp
      obtain actual err where a: "fst (getActualAttr H b f) = (actual, err)"
        by (metis surj_pair)
      then have a2: "fst (getActualAttr H b g) = (actual, err)"
        using differ_getActualAttr(1) [OF fg, where H = H and b = b] by simp
      note fg2 = differ_getActualAttr(2) [OF fg1, where H = H and b = b]
      have w1: "same_run_but (other_attrs b)
                  (upd_stats (\<lambda>st. st\<lparr>total' := total' st + 1\<rparr>) w1)
                  (upd_stats (\<lambda>st. st\<lparr>total' := total' st + 1\<rparr>) w2)"
        using rel by (rule same_run_upd_stats)
      show ?thesis
      proof (cases err)
        case None
        show ?thesis
          using same_run_checkFile_compare [OF w1 fg2]
          by (simp add: checkFile_normal [OF Inr nr False] checkFile_normal [OF Inr2 nr2 False2]
                a a2 None st Let_def)
      next
        case (Some e)
        show ?thesis
          using w1 fg2 fl(1)
          by (simp add: checkFile_normal [OF Inr nr False] checkFile_normal [OF Inr2 nr2 False2]
                a a2 Some Let_def same_run_intros)
      qed
    qed
  qed
qed


lemma tagged_plain_differ:
  "differ_only_in (other_attrs False) tagged_file plain_file"
  by (simp add: differ_only_in_def other_attrs_def tagged_file_def plain_file_def)

lemma doubly_tagged_differ:
  "differ_only_in (other_attrs True) doubly_tagged_file tagged_file"
  by (simp add: differ_only_in_def other_attrs_def doubly_tagged_file_def tagged_file_def
        plain_file_def)

lemma same_run_world_of:
  "differ_only_in N f g \<Longrightarrow> same_run_but N (world_of fn f) (world_of fn g)"
  by (simp add: same_run_but_def world_of_def open_differ_only_in_def)

text \<open>
  Claim C9. Take two runs with the same counters, switches and printed lines whose files
  are the same but for the values of the attributes of the algorithm that is not
  selected (the MD5 attributes under SHA-256, the SHA-256 attributes under MD5). A check
  of a file, remove mode off, leaves the two runs so: the counters and the printed lines
  are equal, hence the verdicts, and the files still differ in those attributes only.
  The check makes the same calls in both runs, and the calls that name an attribute name
  the digest attribute or the timestamp attribute of the selected algorithm.
\<close>

theorem checkFile_algorithm_isolation:
  assumes "same_run_but (other_attrs bMd5) w1 w2" "\<not> remove' (args w1)"
  shows "same_run_but (other_attrs bMd5) (checkFile H bMd5 fn w1) (checkFile H bMd5 fn w2) \<and>
    stats (checkFile H bMd5 fn w1) = stats (checkFile H bMd5 fn w2) \<and>
    printed (checkFile H bMd5 fn w1) = printed (checkFile H bMd5 fn w2) \<and>
    touches_only {digest_attr bMd5, stamp_attr bMd5} (ops_during w1 (checkFile H bMd5 fn w1) fn) \<and>
    ops_during w1 (checkFile H bMd5 fn w1) fn = ops_during w2 (checkFile H bMd5 fn w2) fn"
proof -
  have r: "same_run_but (other_attrs bMd5) (checkFile H bMd5 fn w1) (checkFile H bMd5 fn w2)"
    using assms by (rule same_run_checkFile)
  have o: "open_differ_only_in (other_attrs bMd5) (files w1 fn) (files w2 fn)"
    "open_differ_only_in (other_attrs bMd5) (files (checkFile H bMd5 fn w1) fn)
       (files (checkFile H bMd5 fn w2) fn)"
    using assms(1) r by (simp_all add: same_run_but_def)
  have ops: "ops_during w1 (checkFile H bMd5 fn w1) fn = ops_during w2 (checkFile H bMd5 fn w2) fn"
    using o
    by (auto simp add: ops_during_def open_differ_only_in_def differ_only_in_def
          split: sum.splits)
  show ?thesis
    using r ops checkFile_touches_only [OF assms(2), where b = bMd5 and H = H and fn = fn] same_run_flags(4,5) [OF r]
    by simp
qed

theorem checkFile_algorithm_isolation_witness:
  "same_run_but (other_attrs False) (world_of ''hello.txt'' tagged_file) (world_of ''hello.txt'' plain_file) \<and>
   \<not> remove' (args (world_of ''hello.txt'' tagged_file)) \<and>
   xattrs tagged_file xattrMd5 \<noteq> xattrs plain_file xattrMd5 \<and>
   stats (checkFile demo_hashlib False ''hello.txt'' (world_of ''hello.txt'' tagged_file)) =
     stats (checkFile demo_hashlib False ''hello.txt'' (world_of ''hello.txt'' plain_file)) \<and>
   printed (checkFile demo_hashlib False ''hello.txt'' (world_of ''hello.txt'' tagged_file)) =
     printed (checkFile demo_hashlib False ''hello.txt'' (world_of ''hello.txt'' plain_file)) \<and>
   same_run_but (other_attrs True) (world_of ''hello.txt'' doubly_tagged_file)
     (world_of ''hello.txt'' tagged_file) \<and>
   \<not> remove' (args (world_of ''hello.txt'' doubly_tagged_file)) \<and>
   xattrs doubly_tagged_file xattrSha256 \<noteq> xattrs tagged_file xattrSha256 \<and>
   stats (checkFile demo_hashlib True ''hello.txt'' (world_of ''hello.txt'' doubly_tagged_file)) =
     stats (checkFile demo_hashlib True ''hello.txt'' (world_of ''hello.txt'' tagged_file)) \<and>
   printed (checkFile demo_hashlib True ''hello.txt'' (world_of ''hello.txt'' doubly_tagged_file)) =
     printed (checkFile demo_hashlib True ''hello.txt'' (world_of ''hello.txt'' tagged_file))"
proof -
  note r1 = same_run_world_of [OF tagged_plain_differ, of "''hello.txt''"]
  note r2 = same_run_world_of [OF doubly_tagged_differ, of "''hello.txt''"]
  have d: "xattrs tagged_file xattrMd5 \<noteq> xattrs plain_file xattrMd5"
    "xattrs doubly_tagged_file xattrSha256 \<noteq> xattrs tagged_file xattrSha256"
    by (simp_all add: doubly_tagged_file_def tagged_file_def plain_file_def xattrMd5_def
          xattrTsMd5_def xattrSha256_def xattrTsSha256_def)
  show ?thesis
    using checkFile_algorithm_isolation [OF r1 world_of_simps(2), where H = demo_hashlib
        and fn = "''hello.txt''"]
      checkFile_algorithm_isolation [OF r2 world_of_simps(2), where H = demo_hashlib
        and fn = "''hello.txt''"]
      r1 r2 d
    by (simp add: world_of_simps)
qed

section \<open>Width of the stored digest\<close>

text \<open>
  Claim C10. The digest that the read of the stored attributes returns has the width of
  the selected algorithm, 64 bytes for SHA-256 and 32 for MD5, whatever the attribute
  holds: the value read is copied over a buffer filled with \<open>0\<close> characters, so a
  shorter value is followed by \<open>0\<close> characters up to the width, a longer one is cut at
  the width, and a value that cannot be read leaves the zero digest.
\<close>

theorem getStoredAttr_digest_width:
  "length (sha256 (fst (fst (getStoredAttr False f)))) = 64 \<and>
   length (md5 (fst (fst (getStoredAttr True f)))) = 32 \<and>
   (read_attr f xattrSha256 = Some v \<longrightarrow>
      sha256 (fst (fst (getStoredAttr False f))) = take 64 v @ replicate (64 - length v) CHR ''0'') \<and>
   (read_attr f xattrMd5 = Some v' \<longrightarrow>
      md5 (fst (fst (getStoredAttr True f))) = take 32 v' @ replicate (32 - length v') CHR ''0'') \<and>
   (read_attr f xattrSha256 = None \<longrightarrow> sha256 (fst (fst (getStoredAttr False f))) = zeroSha256) \<and>
   (read_attr f xattrMd5 = None \<longrightarrow> md5 (fst (fst (getStoredAttr True f))) = zeroMd5)"
  by (auto simp add: getStoredAttr_def getStoredAttrSha256_eq getStoredAttrMd5_eq
        zeroSha256_replicate zeroMd5_replicate copy_bytes_replicate split: option.splits)

theorem getStoredAttr_digest_width_witness:
  "read_attr odd_width_file xattrSha256 = Some ''abc'' \<and>
   read_attr odd_width_file xattrMd5 = Some ''0123456789abcdef0123456789abcdef01234567'' \<and>
   sha256 (fst (fst (getStoredAttr False odd_width_file))) = ''abc'' @ replicate 61 CHR ''0'' \<and>
   md5 (fst (fst (getStoredAttr True odd_width_file))) = ''0123456789abcdef0123456789abcdef'' \<and>
   read_attr plain_file xattrSha256 = None \<and>
   read_attr plain_file xattrMd5 = None \<and>
   sha256 (fst (fst (getStoredAttr False plain_file))) = zeroSha256 \<and>
   md5 (fst (fst (getStoredAttr True plain_file))) = zeroMd5"
proof -
  have a: "read_attr odd_width_file xattrSha256 = Some ''abc''"
    by (simp add: read_attr_def odd_width_file_def plain_file_def xattrSha256_def xattrMd5_def)
  have b: "read_attr odd_width_file xattrMd5 = Some ''0123456789abcdef0123456789abcdef01234567''"
    by (simp add: read_attr_def odd_width_file_def plain_file_def xattrSha256_def xattrMd5_def)
  have c: "read_attr plain_file xattrSha256 = None" "read_attr plain_file xattrMd5 = None"
    by (simp_all add: read_attr_def plain_file_def)
  show ?thesis
    using getStoredAttr_digest_width [of odd_width_file "''abc''" "''0123456789abcdef0123456789abcdef01234567''"]
      getStoredAttr_digest_width [of plain_file] a b c
    by simp
qed

end
